theory Spec2Isabelle
  imports Main "HOL-Library.AList_Mapping" "HOL-Library.Sublist"
begin

section \<open>JavaScript values that reach the matcher\<close>

text \<open>
  A candidate pattern is one element of \<open>[].concat(path)\<close>. The source tests it with
  \<open>!path && path !== ""\<close>, so the model keeps the strings and the two falsy non-strings
  that a \<open>path\<close> prop can hold (a missing prop is \<open>undefined\<close>).
\<close>

datatype candidate = JStr string | JNull | JUndefined

text \<open>The \<open>path\<close> (or \<open>from\<close>) prop: one candidate, or an array of candidates.\<close>

datatype path_value = One candidate | Many "candidate list"

text \<open>JavaScript truthiness: the empty string, \<open>null\<close> and \<open>undefined\<close> are falsy.\<close>

fun truthy_candidate :: "candidate \<Rightarrow> bool" where
  "truthy_candidate (JStr s) = (s \<noteq> [])"
| "truthy_candidate JNull = False"
| "truthy_candidate JUndefined = False"

text \<open>Every array is truthy, the empty one too.\<close>

fun truthy :: "path_value \<Rightarrow> bool" where
  "truthy (One c) = truthy_candidate c"
| "truthy (Many cs) = True"

text \<open>\<open>[].concat(path)\<close>: an array is spread, anything else becomes a one-element array.\<close>

fun concat_path :: "path_value \<Rightarrow> candidate list" where
  "concat_path (One c) = [c]"
| "concat_path (Many cs) = cs"

text \<open>\<open>a || b\<close> on two prop values.\<close>

definition js_or :: "path_value \<Rightarrow> path_value \<Rightarrow> path_value" where
  "js_or a b = (if truthy a then a else b)"

section \<open>The path-to-regexp library, as a parameter\<close>

text \<open>
  \<open>pathToRegexp(path, keys, options)\<close> is an external library. It returns a regular
  expression and fills \<open>keys\<close> with one key object per parameter of the pattern. The
  source uses only \<open>regexp.exec(pathname)\<close> and \<open>key.name\<close>. A regular expression is
  modelled by its \<open>exec\<close>: \<open>None\<close> for \<open>null\<close>, otherwise the match array split as the
  source splits it, \<open>[url, ...values]\<close>; a capture group that took no part in the match is
  \<open>undefined\<close>, here \<open>None\<close>.
\<close>

record key =
  name :: string

type_synonym regexp = "string \<Rightarrow> (string \<times> string option list) option"

text \<open>
  The options object \<open>{ end, strict, sensitive }\<close> that compilePath receives. The three
  flags are booleans, as the prop types of Route declare them.
\<close>

record regexp_options =
  opt_end :: bool
  opt_strict :: bool
  opt_sensitive :: bool

type_synonym pathToRegexp = "string \<Rightarrow> regexp_options \<Rightarrow> regexp \<times> key list"

section \<open>compilePath and its module-level cache\<close>

text \<open>
  The object \<open>{ regexp, keys }\<close> that compilePath builds. \<open>oid\<close> is the identity of the
  object: the number of objects compilePath had built before it. Two results are the same
  JavaScript object exactly when their \<open>oid\<close> agree.
\<close>

record compiled =
  oid :: nat
  regexp :: regexp
  keys :: "key list"

text \<open>
  The inner objects of the cache are created as \<open>{}\<close>, so reading \<open>pathCache[path]\<close>
  finds, besides the properties the code has stored, the properties every object inherits
  from \<open>Object.prototype\<close>. These are their names; the value of each is a function, or
  for \<open>__proto__\<close> the prototype object itself, and so it is truthy and has no property
  \<open>regexp\<close> or \<open>keys\<close>.
\<close>

definition object_prototype_names :: "string list" where
  "object_prototype_names =
     [''constructor'', ''__defineGetter__'', ''__defineSetter__'', ''hasOwnProperty'',
      ''__lookupGetter__'', ''__lookupSetter__'', ''isPrototypeOf'', ''propertyIsEnumerable'',
      ''toString'', ''valueOf'', ''__proto__'', ''toLocaleString'']"

text \<open>What compilePath can return: an object it built, or an inherited value.\<close>

datatype cache_value = Matcher compiled | PrototypeValue string

text \<open>
  \<open>pathCache[path]\<close> on an inner object whose stored properties are \<open>pc\<close>: \<open>None\<close> is
  \<open>undefined\<close>. The name \<open>__proto__\<close> is never a stored property: reading it gives the
  prototype.
\<close>

definition pathCache_get :: "(string \<rightharpoonup> compiled) \<Rightarrow> string \<Rightarrow> cache_value option" where
  "pathCache_get pc p =
     (if p = ''__proto__'' then Some (PrototypeValue p)
      else (case pc p of
              Some m \<Rightarrow> Some (Matcher m)
            | None \<Rightarrow>
                (if p \<in> set object_prototype_names then Some (PrototypeValue p) else None)))"

text \<open>
  The module variables \<open>cache\<close> and \<open>cacheCount\<close>. \<open>cache\<close> maps a cache key to the
  stored properties of the inner object \<open>pathCache\<close>, which map a pattern to its result.
  The cache keys are the eight strings that three booleans give, none of them an inherited
  name. Two fields are not in the source and only observe it: \<open>allocated\<close> counts the
  result objects built so far (one per call of \<open>pathToRegexp\<close>), and \<open>matchPath_calls\<close>
  lists the arguments of every call of matchPath, oldest first.
\<close>

record module_state =
  cache :: "string \<rightharpoonup> (string \<rightharpoonup> compiled)"
  cacheCount :: nat
  allocated :: nat
  matchPath_calls :: "(string \<times> path_value) list"

definition cacheLimit :: nat where
  "cacheLimit = 10000"

definition initial_state :: module_state where
  "initial_state = \<lparr>cache = Map.empty, cacheCount = 0, allocated = 0, matchPath_calls = []\<rparr>"

text \<open>A boolean inside a template literal.\<close>

definition template_bool :: "bool \<Rightarrow> string" where
  "template_bool b = (if b then ''true'' else ''false'')"

definition cacheKey_of :: "regexp_options \<Rightarrow> string" where
  "cacheKey_of options =
     template_bool (opt_end options) @ template_bool (opt_strict options)
       @ template_bool (opt_sensitive options)"

text \<open>
  \<open>cache[cacheKey] || (cache[cacheKey] = {})\<close> stores an empty inner object when the key
  is new, also on a call that caches nothing afterwards. \<open>if (pathCache[path]) return
  pathCache[path]\<close> returns whatever the read finds, a stored result or an inherited value:
  both are truthy.
\<close>

definition compilePath ::
  "pathToRegexp \<Rightarrow> string \<Rightarrow> regexp_options \<Rightarrow> module_state \<Rightarrow>
     cache_value \<times> module_state" where
  "compilePath p2r path options st =
     (let cacheKey = cacheKey_of options;
          pathCache = (case cache st cacheKey of Some pc \<Rightarrow> pc | None \<Rightarrow> Map.empty);
          st1 = st\<lparr>cache := (cache st)(cacheKey \<mapsto> pathCache)\<rparr>
      in case pathCache_get pathCache path of
           Some hit \<Rightarrow> (hit, st1)
         | None \<Rightarrow>
             (let result = \<lparr>oid = allocated st1, regexp = fst (p2r path options),
                             keys = snd (p2r path options)\<rparr>;
                  st2 = st1\<lparr>allocated := allocated st1 + 1\<rparr>
              in if cacheCount st2 < cacheLimit
                 then (Matcher result,
                       st2\<lparr>cache := (cache st2)(cacheKey \<mapsto> pathCache(path \<mapsto> result)),
                           cacheCount := cacheCount st2 + 1\<rparr>)
                 else (Matcher result, st2)))"

text \<open>What the code has stored in the two-level cache for a pattern and its options.\<close>

definition cached :: "module_state \<Rightarrow> string \<Rightarrow> regexp_options \<Rightarrow> compiled option" where
  "cached st path options =
     (case cache st (cacheKey_of options) of None \<Rightarrow> None | Some pc \<Rightarrow> pc path)"

text \<open>Any number of calls of compilePath, one after the other.\<close>

fun compilePath_calls ::
  "pathToRegexp \<Rightarrow> (string \<times> regexp_options) list \<Rightarrow> module_state \<Rightarrow> module_state" where
  "compilePath_calls p2r [] st = st"
| "compilePath_calls p2r (c # cs) st =
     compilePath_calls p2r cs (snd (compilePath p2r (fst c) (snd c) st))"

section \<open>matchPath\<close>

text \<open>
  The object matchPath returns. \<open>params\<close> is a plain object: its stored properties, each
  name with its value, where the value \<open>None\<close> is \<open>undefined\<close>. The order in which
  JavaScript enumerates them is not part of the model.
\<close>

record match_result =
  path :: string
  url :: string
  isExact :: bool
  params :: "(string, string option) mapping"

text \<open>What the code can throw.\<close>

datatype error = InvariantViolation string | TypeError string

text \<open>The options object; a missing \<open>exact\<close>, \<open>strict\<close> or \<open>sensitive\<close> defaults to false.\<close>

record options =
  props_path :: path_value
  exact :: bool
  strict :: bool
  sensitive :: bool

text \<open>\<open>values[index]\<close>: reading past the end of an array gives \<open>undefined\<close>.\<close>

definition js_index :: "string option list \<Rightarrow> nat \<Rightarrow> string option" where
  "js_index vals i = (if i < length vals then vals ! i else None)"

text \<open>
  \<open>memo[name] = value\<close> on a plain object, where the value is a string or \<open>undefined\<close>.
  The name \<open>__proto__\<close> reaches the inherited setter, which ignores a value that is
  neither an object nor \<open>null\<close>: nothing is stored. Any other name is stored, an
  inherited name too.
\<close>

definition js_set ::
  "string \<Rightarrow> string option \<Rightarrow> (string, string option) mapping \<Rightarrow>
     (string, string option) mapping" where
  "js_set n v memo = (if n = ''__proto__'' then memo else Mapping.update n v memo)"

text \<open>
  \<open>keys.reduce((memo, key, index) => { memo[key.name] = values[index]; return memo }, {})\<close>.
\<close>

definition build_params ::
  "key list \<Rightarrow> string option list \<Rightarrow> (string, string option) mapping" where
  "build_params ks vals =
     foldl (\<lambda>memo (index, k). js_set (name k) (js_index vals index) memo) Mapping.empty
       (enumerate 0 ks)"

text \<open>The guard \<open>!path && path !== ""\<close>.\<close>

definition no_pattern :: "candidate \<Rightarrow> bool" where
  "no_pattern c = (\<not> truthy_candidate c \<and> c \<noteq> JStr [])"

text \<open>
  The callback of \<open>paths.reduce\<close>, with the module state threaded through. The
  destructuring \<open>const { regexp, keys } = compilePath(...)\<close> of an inherited value gives
  \<open>undefined\<close> twice, and \<open>regexp.exec(pathname)\<close> then throws a TypeError, which ends
  the reduce: once the accumulator is an error, it stays.
\<close>

fun matchPath_step ::
  "pathToRegexp \<Rightarrow> string \<Rightarrow> bool \<Rightarrow> bool \<Rightarrow> bool \<Rightarrow>
     (error + match_result option) \<times> module_state \<Rightarrow> candidate \<Rightarrow>
     (error + match_result option) \<times> module_state" where
  "matchPath_step p2r pathname ex str sens (acc, st) c =
     (case acc of
        Inl e \<Rightarrow> (Inl e, st)
      | Inr matched \<Rightarrow>
          (if no_pattern c then (Inr None, st)
           else if matched \<noteq> None then (Inr matched, st)
           else
             (case c of
                JStr p \<Rightarrow>
                  (let (v, st') = compilePath p2r p
                         \<lparr>opt_end = ex, opt_strict = str, opt_sensitive = sens\<rparr> st
                   in case v of
                        PrototypeValue n \<Rightarrow>
                          (Inl (TypeError ''Cannot read property exec of undefined''), st')
                      | Matcher m \<Rightarrow>
                          (case regexp m pathname of
                             None \<Rightarrow> (Inr None, st')
                           | Some (u, vals) \<Rightarrow>
                               (let isExact = (pathname = u)
                                in if ex \<and> \<not> isExact then (Inr None, st')
                                   else (Inr (Some \<lparr>path = p,
                                           url = (if p = ''/'' \<and> u = [] then ''/'' else u),
                                           isExact = isExact,
                                           params = build_params (keys m) vals\<rparr>), st'))))
              | _ \<Rightarrow> (Inr None, st))))"

text \<open>The second argument of matchPath: a string, an array, or an options object.\<close>

datatype 'a matchPath_arg = ArgString string | ArgArray "candidate list" | ArgOptions 'a

fun normalize_options :: "'a options_scheme matchPath_arg \<Rightarrow> options" where
  "normalize_options (ArgString s) =
     \<lparr>props_path = One (JStr s), exact = False, strict = False, sensitive = False\<rparr>"
| "normalize_options (ArgArray cs) =
     \<lparr>props_path = Many cs, exact = False, strict = False, sensitive = False\<rparr>"
| "normalize_options (ArgOptions opts) =
     \<lparr>props_path = props_path opts, exact = exact opts, strict = strict opts,
      sensitive = sensitive opts\<rparr>"

definition matchPath ::
  "pathToRegexp \<Rightarrow> string \<Rightarrow> 'a options_scheme matchPath_arg \<Rightarrow> module_state \<Rightarrow>
     (error + match_result option) \<times> module_state" where
  "matchPath p2r pathname arg st =
     (let opts = normalize_options arg;
          paths = concat_path (props_path opts);
          st0 = st\<lparr>matchPath_calls := matchPath_calls st @ [(pathname, props_path opts)]\<rparr>
      in foldl (matchPath_step p2r pathname (exact opts) (strict opts) (sensitive opts))
           (Inr None, st0) paths)"

section \<open>Router\<close>

text \<open>A location of the history library; the source reads only \<open>pathname\<close>.\<close>

record location =
  pathname :: string
  search :: string
  hash :: string

text \<open>
  The instance fields of a Router: \<open>this.state.location\<close>, \<open>this._isMounted\<close>,
  \<open>this._pendingLocation\<close>, and whether \<open>this.unlisten\<close> is defined. \<open>subscribed\<close> is
  the history's side of the subscription: whether the callback is still registered.
  \<open>setState\<close> is modelled as taking effect at once.
\<close>

record router =
  location :: location
  isMounted :: bool
  pendingLocation :: "location option"
  unlisten :: bool
  subscribed :: bool

record router_props =
  history_location :: location
  staticContext :: bool

definition Router_constructor :: "router_props \<Rightarrow> router" where
  "Router_constructor props =
     \<lparr>location = history_location props, isMounted = False, pendingLocation = None,
      unlisten = (\<not> staticContext props), subscribed = (\<not> staticContext props)\<rparr>"

text \<open>The callback given to \<open>history.listen\<close>.\<close>

definition Router_listener :: "location \<Rightarrow> router \<Rightarrow> router" where
  "Router_listener loc r =
     (if isMounted r then r\<lparr>location := loc\<rparr> else r\<lparr>pendingLocation := Some loc\<rparr>)"

text \<open>The history announcing a new location: it calls the callback while it is registered.\<close>

definition history_emit :: "router \<Rightarrow> location \<Rightarrow> router" where
  "history_emit r loc = (if subscribed r then Router_listener loc r else r)"

definition componentDidMount :: "router \<Rightarrow> router" where
  "componentDidMount r =
     (let r1 = r\<lparr>isMounted := True\<rparr>
      in case pendingLocation r1 of
           Some loc \<Rightarrow> r1\<lparr>location := loc\<rparr>
         | None \<Rightarrow> r1)"


definition computeRootMatch :: "string \<Rightarrow> match_result" where
  "computeRootMatch pn =
     \<lparr>path = ''/'', url = ''/'', isExact = (pn = ''/''), params = Mapping.empty\<rparr>"

text \<open>
  The value of RouterContext; \<open>history\<close> and \<open>staticContext\<close> are handed on untouched and
  are left out.
\<close>

record router_context =
  ctx_location :: location
  ctx_match :: "match_result option"

definition Router_render :: "router \<Rightarrow> router_context" where
  "Router_render r =
     \<lparr>ctx_location = location r,
      ctx_match = Some (computeRootMatch (pathname (location r)))\<rparr>"

section \<open>Route\<close>

text \<open>
  The \<open>children\<close> prop: nothing (or another falsy value), the empty array that Preact
  passes, a function, or fixed nodes. Functions, components and nodes are opaque and
  stand by their names.
\<close>

datatype children_prop =
  NoChildren | EmptyChildrenArray | ChildrenFunction string | ChildrenNode string

record props = options +
  props_from :: path_value
  props_location :: "location option"
  computedMatch :: "match_result option"
  children :: children_prop
  component :: "string option"
  render :: "string option"

text \<open>
  What the Route puts below its provider: the one call it makes, with the argument it
  passes, or the fixed children, or \<open>null\<close>. In a development build the children
  function is called through \<open>evalChildrenDev\<close>, which calls it with the same argument.
\<close>

datatype rendering =
    CallChildren string router_context
  | FixedChildren children_prop
  | CreateElement string router_context
  | CallRender string router_context
  | RenderNull

record route_output =
  provided :: router_context
  rendered :: rendering

text \<open>The nested conditional expression below the provider.\<close>

definition select_rendering ::
  "router_context \<Rightarrow> children_prop \<Rightarrow> string option \<Rightarrow> string option \<Rightarrow> rendering" where
  "select_rendering pr ch cmpt rend =
     (if ctx_match pr \<noteq> None
      then (if ch \<noteq> NoChildren
            then (case ch of ChildrenFunction f \<Rightarrow> CallChildren f pr | _ \<Rightarrow> FixedChildren ch)
            else (case cmpt of
                    Some c \<Rightarrow> CreateElement c pr
                  | None \<Rightarrow> (case rend of Some f \<Rightarrow> CallRender f pr | None \<Rightarrow> RenderNull)))
      else (case ch of ChildrenFunction f \<Rightarrow> CallChildren f pr | _ \<Rightarrow> RenderNull))"

text \<open>An exception of matchPath leaves the render function with the state reached.\<close>

definition Route_render ::
  "pathToRegexp \<Rightarrow> router_context option \<Rightarrow> props \<Rightarrow> module_state \<Rightarrow>
     (error + route_output) \<times> module_state" where
  "Route_render p2r ctx ps st =
     (case ctx of
        None \<Rightarrow> (Inl (InvariantViolation ''You should not use <Route> outside a <Router>''), st)
      | Some cx \<Rightarrow>
          (let loc = (case props_location ps of Some l \<Rightarrow> l | None \<Rightarrow> ctx_location cx);
               (r, st') =
                 (case computedMatch ps of
                    Some cm \<Rightarrow> (Inr (Some cm), st)
                  | None \<Rightarrow>
                      (if truthy (props_path ps)
                       then matchPath p2r (pathname loc) (ArgOptions ps) st
                       else (Inr (ctx_match cx), st)))
           in case r of
                Inl e \<Rightarrow> (Inl e, st')
              | Inr m \<Rightarrow>
                  (let pr = \<lparr>ctx_location = loc, ctx_match = m\<rparr>;
                       ch = (if children ps = EmptyChildrenArray then NoChildren
                             else children ps)
                   in (Inr \<lparr>provided = pr,
                            rendered = select_rendering pr ch (component ps) (render ps)\<rparr>,
                       st'))))"

section \<open>Switch\<close>

text \<open>
  A child of the Switch, as \<open>React.Children.forEach\<close> hands it to the callback: a valid
  element with its props, or anything else (text, \<open>null\<close>, a boolean).
\<close>

datatype child = Element props | NotElement

fun isValidElement :: "child \<Rightarrow> bool" where
  "isValidElement (Element ps) = True"
| "isValidElement NotElement = False"

text \<open>\<open>React.cloneElement(element, { location, computedMatch: match })\<close>.\<close>

fun cloneElement :: "child \<Rightarrow> location \<Rightarrow> match_result \<Rightarrow> child" where
  "cloneElement (Element ps) loc m = Element (ps\<lparr>props_location := Some loc, computedMatch := Some m\<rparr>)"
| "cloneElement NotElement loc m = NotElement"

text \<open>
  The callback of \<open>React.Children.forEach\<close>; the variables \<open>element\<close> and \<open>match\<close> that
  it assigns, and the module state, are the accumulator. An exception of matchPath ends
  the loop.
\<close>

fun Switch_forEach ::
  "pathToRegexp \<Rightarrow> router_context \<Rightarrow> location \<Rightarrow>
     (error + child option \<times> match_result option) \<times> module_state \<Rightarrow> child \<Rightarrow>
     (error + child option \<times> match_result option) \<times> module_state" where
  "Switch_forEach p2r cx loc (acc, st) c =
     (case acc of
        Inl e \<Rightarrow> (Inl e, st)
      | Inr (element, m) \<Rightarrow>
          (if m = None \<and> isValidElement c
           then (case c of
                   Element ps \<Rightarrow>
                     (let p = js_or (props_path ps) (props_from ps)
                      in if truthy p
                         then (let (r, st') =
                                     matchPath p2r (pathname loc)
                                       (ArgOptions (ps\<lparr>props_path := p\<rparr>)) st
                               in case r of
                                    Inl e \<Rightarrow> (Inl e, st')
                                  | Inr m' \<Rightarrow> (Inr (Some c, m'), st'))
                         else (Inr (Some c, ctx_match cx), st))
                 | NotElement \<Rightarrow> (Inr (element, m), st))
           else (Inr (element, m), st)))"

definition Switch_render ::
  "pathToRegexp \<Rightarrow> router_context option \<Rightarrow> location option \<Rightarrow> child list \<Rightarrow> module_state \<Rightarrow>
     (error + child option) \<times> module_state" where
  "Switch_render p2r ctx sw_location chs st =
     (case ctx of
        None \<Rightarrow> (Inl (InvariantViolation ''You should not use <Switch> outside a <Router>''), st)
      | Some cx \<Rightarrow>
          (let loc = (case sw_location of Some l \<Rightarrow> l | None \<Rightarrow> ctx_location cx);
               (acc, st') = foldl (Switch_forEach p2r cx loc) (Inr (None, None), st) chs
           in case acc of
                Inl e \<Rightarrow> (Inl e, st')
              | Inr (element, m) \<Rightarrow>
                  (case m of
                     None \<Rightarrow> (Inr None, st')
                   | Some mr \<Rightarrow>
                       (case element of
                          None \<Rightarrow> (Inl (TypeError ''cloneElement of undefined''), st')
                        | Some e \<Rightarrow> (Inr (Some (cloneElement e loc mr)), st')))))"

section \<open>The same computation without the cache\<close>

text \<open>
  The invariant of the cache: every stored object holds what \<open>pathToRegexp\<close> returns for
  its pattern and options, it was built earlier than any object still to come, and no
  inherited name has a stored object.
\<close>

definition cache_valid :: "pathToRegexp \<Rightarrow> module_state \<Rightarrow> bool" where
  "cache_valid p2r st =
     (\<forall>p os m. cached st p os = Some m \<longrightarrow>
        regexp m = fst (p2r p os) \<and> keys m = snd (p2r p os) \<and> oid m < allocated st
        \<and> p \<notin> set object_prototype_names)"

text \<open>
  The body of the reduce callback for one string candidate, with the result of
  compilePath replaced by what it is in a state that satisfies the invariant: the
  inherited value for an inherited name, and otherwise what \<open>pathToRegexp\<close> returns. It
  serves to state what a match is, independently of what the cache holds.
\<close>

definition match_candidate ::
  "pathToRegexp \<Rightarrow> string \<Rightarrow> bool \<Rightarrow> bool \<Rightarrow> bool \<Rightarrow> string \<Rightarrow>
     error + match_result option" where
  "match_candidate p2r pn ex str sens p =
     (if p \<in> set object_prototype_names
      then Inl (TypeError ''Cannot read property exec of undefined'')
      else
        (let os = \<lparr>opt_end = ex, opt_strict = str, opt_sensitive = sens\<rparr>
         in case fst (p2r p os) pn of
              None \<Rightarrow> Inr None
            | Some (u, vals) \<Rightarrow>
                (if ex \<and> pn \<noteq> u then Inr None
                 else Inr (Some \<lparr>path = p,
                             url = (if p = ''/'' \<and> u = [] then ''/'' else u),
                             isExact = (pn = u),
                             params = build_params (snd (p2r p os)) vals\<rparr>))))"

definition uncached_step ::
  "pathToRegexp \<Rightarrow> string \<Rightarrow> bool \<Rightarrow> bool \<Rightarrow> bool \<Rightarrow>
     error + match_result option \<Rightarrow> candidate \<Rightarrow> error + match_result option" where
  "uncached_step p2r pn ex str sens acc c =
     (case acc of
        Inl e \<Rightarrow> Inl e
      | Inr matched \<Rightarrow>
          (if no_pattern c then Inr None
           else if matched \<noteq> None then Inr matched
           else (case c of JStr p \<Rightarrow> match_candidate p2r pn ex str sens p | _ \<Rightarrow> Inr None)))"

definition matchPath_uncached ::
  "pathToRegexp \<Rightarrow> string \<Rightarrow> 'a options_scheme matchPath_arg \<Rightarrow> error + match_result option" where
  "matchPath_uncached p2r pn arg =
     (let opts = normalize_options arg
      in foldl (uncached_step p2r pn (exact opts) (strict opts) (sensitive opts)) (Inr None)
           (concat_path (props_path opts)))"

text \<open>
  What the Switch computes for a child when it reaches it (an exception, no match, or a
  match), and the calls of matchPath that this costs.
\<close>

definition child_match ::
  "pathToRegexp \<Rightarrow> router_context \<Rightarrow> location \<Rightarrow> child \<Rightarrow> error + match_result option" where
  "child_match p2r cx loc c =
     (case c of
        NotElement \<Rightarrow> Inr None
      | Element ps \<Rightarrow>
          (let p = js_or (props_path ps) (props_from ps)
           in if truthy p
              then matchPath_uncached p2r (pathname loc) (ArgOptions (ps\<lparr>props_path := p\<rparr>))
              else Inr (ctx_match cx)))"

definition child_calls :: "location \<Rightarrow> child \<Rightarrow> (string \<times> path_value) list" where
  "child_calls loc c =
     (case c of
        NotElement \<Rightarrow> []
      | Element ps \<Rightarrow>
          (let p = js_or (props_path ps) (props_from ps)
           in if truthy p then [(pathname loc, p)] else []))"

text \<open>
  What the claims call a pattern that is present, written out from their words: a
  non-empty string, or an array of candidates. It is compared below with the test the
  source makes.
\<close>

definition spec_pattern_present :: "path_value \<Rightarrow> bool" where
  "spec_pattern_present v =
     (case v of
        One (JStr s) \<Rightarrow> s \<noteq> []
      | One JNull \<Rightarrow> False
      | One JUndefined \<Rightarrow> False
      | Many cs \<Rightarrow> True)"

section \<open>A fragment of path-to-regexp for concrete runs\<close>

text \<open>
  The theorems below hold for every \<open>pathToRegexp\<close>. To run the model on concrete
  inputs, this section computes what path-to-regexp 1.x computes on the patterns made of
  segments \<open>/literal\<close>, \<open>/:name\<close> and \<open>/:name?\<close>, with an optional trailing slash. There
  the library builds, for \<open>/users/:id?\<close> and no option set, the expression
  \<^verbatim>\<open>/^\/users(?:\/([^\/]+?))?(?:\/(?=$))?(?=\/|$)/i\<close>: a parameter takes one whole
  non-empty segment, an optional parameter may be skipped and is then \<open>undefined\<close> in the
  match array, \<open>strict\<close> removes the optional trailing slash, \<open>end\<close> anchors the match at
  the end of the input and \<open>sensitive\<close> removes the flag \<open>i\<close>.
\<close>

text \<open>A literal piece of text, a parameter \<open>/:name\<close>, an optional parameter \<open>/:name?\<close>.\<close>

datatype token = Lit string | Param string | OptParam string

text \<open>The pattern cut at every slash; the first piece is what stands before the first slash.\<close>

fun split_slash :: "string \<Rightarrow> string list" where
  "split_slash [] = [[]]"
| "split_slash (c # cs) =
     (if c = CHR ''/'' then [] # split_slash cs
      else (case split_slash cs of [] \<Rightarrow> [[c]] | s # ss \<Rightarrow> (c # s) # ss))"

definition segment_token :: "string \<Rightarrow> token" where
  "segment_token s =
     (case s of
        [] \<Rightarrow> Lit ''/''
      | c # cs \<Rightarrow>
          (if c = CHR '':'' \<and> cs \<noteq> []
           then (if last cs = CHR ''?'' then OptParam (butlast cs) else Param cs)
           else Lit (CHR ''/'' # s)))"

definition parse_pattern :: "string \<Rightarrow> token list" where
  "parse_pattern p =
     (case split_slash p of
        [] \<Rightarrow> []
      | s # ss \<Rightarrow> (if s = [] then [] else [Lit s]) @ map segment_token ss)"

text \<open>Comparison of text under the flag \<open>i\<close> (ASCII letters), or exact when \<open>sensitive\<close>.\<close>

definition lower_char :: "char \<Rightarrow> char" where
  "lower_char c =
     (case map_of (zip ''ABCDEFGHIJKLMNOPQRSTUVWXYZ'' ''abcdefghijklmnopqrstuvwxyz'') c of
        Some l \<Rightarrow> l
      | None \<Rightarrow> c)"

definition same_text :: "bool \<Rightarrow> string \<Rightarrow> string \<Rightarrow> bool" where
  "same_text sens a b = (if sens then a = b else map lower_char a = map lower_char b)"

text \<open>
  What the group \<^verbatim>\<open>\/([^\/]+?)\<close> takes: a slash and the non-empty text up to the next
  slash or the end, since everything that can follow it starts at a slash or at the end.
\<close>

definition take_segment :: "string \<Rightarrow> (string \<times> string) option" where
  "take_segment rest =
     (case rest of
        [] \<Rightarrow> None
      | c # cs \<Rightarrow>
          (if c = CHR ''/'' \<and> takeWhile (\<lambda>x. x \<noteq> CHR ''/'') cs \<noteq> []
           then Some (takeWhile (\<lambda>x. x \<noteq> CHR ''/'') cs, dropWhile (\<lambda>x. x \<noteq> CHR ''/'') cs)
           else None))"

text \<open>
  The end of the expression: \<^verbatim>\<open>(?:\/(?=$))?\<close> unless \<open>strict\<close>, then \<^verbatim>\<open>$\<close> when
  \<open>end\<close> is set and otherwise \<^verbatim>\<open>(?=\/|$)\<close>, which is left out when \<open>strict\<close> is set
  and the pattern ends with a slash. The result is the text this end consumes.
\<close>

definition at_boundary :: "string \<Rightarrow> bool" where
  "at_boundary rest = (case rest of [] \<Rightarrow> True | c # cs \<Rightarrow> c = CHR ''/'')"

definition match_tail :: "regexp_options \<Rightarrow> bool \<Rightarrow> string \<Rightarrow> string option" where
  "match_tail opts ends_with_slash rest =
     (if opt_strict opts
      then (if opt_end opts then (if rest = [] then Some [] else None)
            else if ends_with_slash then Some []
            else if at_boundary rest then Some [] else None)
      else (if rest = ''/'' then Some ''/''
            else if opt_end opts then (if rest = [] then Some [] else None)
            else if at_boundary rest then Some [] else None))"

text \<open>
  The match of the tokens from the start of the input: the text matched and the captured
  values. An optional parameter is tried first and skipped if the rest then fails.
\<close>

definition or_else :: "'a option \<Rightarrow> 'a option \<Rightarrow> 'a option" where
  "or_else a b = (case a of Some r \<Rightarrow> Some r | None \<Rightarrow> b)"

fun match_tokens ::
  "bool \<Rightarrow> (string \<Rightarrow> string option) \<Rightarrow> token list \<Rightarrow> string \<Rightarrow>
     (string \<times> string option list) option" where
  "match_tokens sens tail [] rest = map_option (\<lambda>t. (t, [])) (tail rest)"
| "match_tokens sens tail (Lit s # ts) rest =
     (if length s \<le> length rest \<and> same_text sens s (take (length s) rest)
      then map_option (\<lambda>(u, vs). (take (length s) rest @ u, vs))
             (match_tokens sens tail ts (drop (length s) rest))
      else None)"
| "match_tokens sens tail (Param n # ts) rest =
     (case take_segment rest of
        None \<Rightarrow> None
      | Some (seg, rest') \<Rightarrow>
          map_option (\<lambda>(u, vs). (CHR ''/'' # seg @ u, Some seg # vs))
            (match_tokens sens tail ts rest'))"
| "match_tokens sens tail (OptParam n # ts) rest =
     or_else
       (case take_segment rest of
          None \<Rightarrow> None
        | Some (seg, rest') \<Rightarrow>
            map_option (\<lambda>(u, vs). (CHR ''/'' # seg @ u, Some seg # vs))
              (match_tokens sens tail ts rest'))
       (map_option (\<lambda>(u, vs). (u, None # vs)) (match_tokens sens tail ts rest))"

fun token_keys :: "token list \<Rightarrow> key list" where
  "token_keys [] = []"
| "token_keys (Lit s # ts) = token_keys ts"
| "token_keys (Param n # ts) = \<lparr>name = n\<rparr> # token_keys ts"
| "token_keys (OptParam n # ts) = \<lparr>name = n\<rparr> # token_keys ts"

text \<open>Unless \<open>strict\<close> is set, a slash that ends the pattern is removed from the route.\<close>

definition ends_with_slash :: "token list \<Rightarrow> bool" where
  "ends_with_slash ts =
     (ts \<noteq> [] \<and> (case last ts of Lit s \<Rightarrow> s \<noteq> [] \<and> last s = CHR ''/'' | _ \<Rightarrow> False))"

definition strip_slash :: "token list \<Rightarrow> token list" where
  "strip_slash ts =
     (if ends_with_slash ts
      then butlast ts @ [case last ts of Lit s \<Rightarrow> Lit (butlast s) | t \<Rightarrow> t]
      else ts)"

definition sample_pathToRegexp :: pathToRegexp where
  "sample_pathToRegexp p opts =
     (let ts = parse_pattern p;
          route = (if opt_strict opts then ts else strip_slash ts)
      in (match_tokens (opt_sensitive opts) (match_tail opts (ends_with_slash ts)) route,
          token_keys ts))"

section \<open>Facts about compilePath\<close>

lemma cacheKey_of_inject: "cacheKey_of a = cacheKey_of b \<longleftrightarrow> a = b"
  by (cases a, cases b) (auto simp: cacheKey_of_def template_bool_def)

lemma proto_inherited: "''__proto__'' \<in> set object_prototype_names"
  by (simp add: object_prototype_names_def)

lemma pathCache_get_own:
  "p \<notin> set object_prototype_names \<Longrightarrow> pathCache_get pc p = map_option Matcher (pc p)"
  using proto_inherited by (auto simp: pathCache_get_def split: option.splits)

lemma pathCache_get_inherited:
  "p \<in> set object_prototype_names \<Longrightarrow> pc p = None \<Longrightarrow>
     pathCache_get pc p = Some (PrototypeValue p)"
  by (simp add: pathCache_get_def)

lemma compilePath_hit:
  "cached st p os = Some m \<Longrightarrow> p \<notin> set object_prototype_names \<Longrightarrow>
     compilePath p2r p os st = (Matcher m, st)"
  by (auto simp: compilePath_def cached_def Let_def map_upd_triv pathCache_get_own
      split: option.splits)

lemma compilePath_miss_fst:
  "cached st p os = None \<Longrightarrow> p \<notin> set object_prototype_names \<Longrightarrow>
     fst (compilePath p2r p os st) =
       Matcher \<lparr>oid = allocated st, regexp = fst (p2r p os), keys = snd (p2r p os)\<rparr>"
  by (auto simp: compilePath_def cached_def Let_def pathCache_get_own split: option.splits)

lemma compilePath_inherited_fst:
  "cached st p os = None \<Longrightarrow> p \<in> set object_prototype_names \<Longrightarrow>
     fst (compilePath p2r p os st) = PrototypeValue p"
  by (auto simp: compilePath_def cached_def Let_def pathCache_get_inherited split: option.splits)

lemma cached_compilePath:
  "cached (snd (compilePath p2r p os st)) p' os' =
     (if p' = p \<and> os' = os \<and> cached st p os = None \<and> p \<notin> set object_prototype_names
          \<and> cacheCount st < cacheLimit
      then Some \<lparr>oid = allocated st, regexp = fst (p2r p os), keys = snd (p2r p os)\<rparr>
      else cached st p' os')"
  using proto_inherited
  by (auto simp: compilePath_def cached_def Let_def cacheKey_of_inject pathCache_get_def
      split: option.splits if_splits)

lemma cacheCount_compilePath:
  "cacheCount (snd (compilePath p2r p os st)) =
     (if cached st p os = None \<and> p \<notin> set object_prototype_names \<and> cacheCount st < cacheLimit
      then cacheCount st + 1 else cacheCount st)"
  using proto_inherited
  by (auto simp: compilePath_def cached_def Let_def pathCache_get_def
      split: option.splits if_splits)

lemma allocated_compilePath:
  "allocated (snd (compilePath p2r p os st)) =
     (if cached st p os = None \<and> p \<notin> set object_prototype_names then allocated st + 1
      else allocated st)"
  using proto_inherited
  by (auto simp: compilePath_def cached_def Let_def pathCache_get_def
      split: option.splits if_splits)

lemma matchPath_calls_compilePath:
  "matchPath_calls (snd (compilePath p2r p os st)) = matchPath_calls st"
  by (auto simp: compilePath_def Let_def split: option.splits)

lemma cache_valid_compilePath:
  "cache_valid p2r st \<Longrightarrow> cache_valid p2r (snd (compilePath p2r p os st))"
  unfolding cache_valid_def
  by (auto simp: cached_compilePath allocated_compilePath less_SucI split: if_splits)

lemma compilePath_equivalent:
  assumes "cache_valid p2r st" and "p \<notin> set object_prototype_names"
  shows "\<exists>m. fst (compilePath p2r p os st) = Matcher m
           \<and> regexp m = fst (p2r p os) \<and> keys m = snd (p2r p os)"
proof (cases "cached st p os")
  case None
  with assms(2) show ?thesis by (simp add: compilePath_miss_fst)
next
  case (Some m)
  with assms show ?thesis by (simp add: compilePath_hit cache_valid_def)
qed

lemma compilePath_inherited:
  assumes "cache_valid p2r st" and "p \<in> set object_prototype_names"
  shows "fst (compilePath p2r p os st) = PrototypeValue p"
proof -
  have "cached st p os = None"
    using assms by (cases "cached st p os") (auto simp: cache_valid_def)
  then show ?thesis using assms(2) by (rule compilePath_inherited_fst)
qed

lemma cache_valid_calls:
  "cache_valid p2r st \<Longrightarrow> cache_valid p2r (compilePath_calls p2r cs st)"
  by (induction cs arbitrary: st) (simp_all add: cache_valid_compilePath)

lemma cached_calls_kept:
  "cached st p os = Some m \<Longrightarrow> cached (compilePath_calls p2r cs st) p os = Some m"
proof (induction cs arbitrary: st)
  case Nil
  then show ?case by simp
next
  case (Cons c cs)
  have "cached (snd (compilePath p2r (fst c) (snd c) st)) p os = Some m"
    using Cons.prems by (auto simp: cached_compilePath)
  then show ?case using Cons.IH by simp
qed

lemma saturated_calls:
  "cacheLimit \<le> cacheCount st \<Longrightarrow>
     cacheCount (compilePath_calls p2r cs st) = cacheCount st
     \<and> cached (compilePath_calls p2r cs st) p os = cached st p os"
  by (induction cs arbitrary: st) (simp_all add: cached_compilePath cacheCount_compilePath)

lemma allocated_calls_mono: "allocated st \<le> allocated (compilePath_calls p2r cs st)"
proof (induction cs arbitrary: st)
  case Nil
  then show ?case by simp
next
  case (Cons c cs)
  have "allocated st \<le> allocated (snd (compilePath p2r (fst c) (snd c) st))"
    by (simp add: allocated_compilePath)
  with Cons.IH [of "snd (compilePath p2r (fst c) (snd c) st)"] show ?case by simp
qed

lemma cache_valid_initial: "cache_valid p2r initial_state"
  by (simp add: cache_valid_def cached_def initial_state_def)

lemma compilePath_below_limit:
  assumes "cached st p os = None" and "cacheCount st < cacheLimit"
    and "p \<notin> set object_prototype_names"
  shows "(\<exists>m. fst (compilePath p2r p os st) = Matcher m \<and> oid m = allocated st
            \<and> cached (snd (compilePath p2r p os st)) p os = Some m)
       \<and> allocated (snd (compilePath p2r p os st)) = allocated st + 1
       \<and> cacheCount (snd (compilePath p2r p os st)) = cacheCount st + 1
       \<and> (\<forall>cs. compilePath p2r p os (compilePath_calls p2r cs (snd (compilePath p2r p os st))) =
             (fst (compilePath p2r p os st), compilePath_calls p2r cs (snd (compilePath p2r p os st))))"
proof -
  let ?c = "compilePath p2r p os st"
  let ?m = "\<lparr>oid = allocated st, regexp = fst (p2r p os), keys = snd (p2r p os)\<rparr>"
  have f: "fst ?c = Matcher ?m"
    using assms by (simp add: compilePath_miss_fst)
  have c: "cached (snd ?c) p os = Some ?m"
    using assms by (simp add: cached_compilePath)
  have "compilePath p2r p os (compilePath_calls p2r cs (snd ?c)) =
          (fst ?c, compilePath_calls p2r cs (snd ?c))" for cs
    using cached_calls_kept [OF c, of p2r cs] assms(3) f by (simp add: compilePath_hit)
  with c f assms show ?thesis
    by (simp add: allocated_compilePath cacheCount_compilePath)
qed

lemma compilePath_at_limit:
  assumes "cached st p os = None" and "cacheLimit \<le> cacheCount st"
    and "p \<notin> set object_prototype_names"
  shows "(\<exists>m. fst (compilePath p2r p os st) = Matcher m \<and> oid m = allocated st
            \<and> regexp m = fst (p2r p os) \<and> keys m = snd (p2r p os))
       \<and> allocated (snd (compilePath p2r p os st)) = allocated st + 1
       \<and> cacheCount (snd (compilePath p2r p os st)) = cacheCount st
       \<and> (\<forall>p' os'. cached (snd (compilePath p2r p os st)) p' os' = cached st p' os')
       \<and> (\<forall>cs. cached (compilePath_calls p2r cs (snd (compilePath p2r p os st))) p os = None
             \<and> allocated st < allocated (compilePath_calls p2r cs (snd (compilePath p2r p os st))))"
proof -
  let ?c = "compilePath p2r p os st"
  have same: "cached (snd ?c) p' os' = cached st p' os'" for p' os'
    using assms by (simp add: cached_compilePath)
  have count: "cacheCount (snd ?c) = cacheCount st"
    using assms by (simp add: cacheCount_compilePath)
  have alloc: "allocated (snd ?c) = allocated st + 1"
    using assms by (simp add: allocated_compilePath)
  have later: "cached (compilePath_calls p2r cs (snd ?c)) p os = None
             \<and> allocated st < allocated (compilePath_calls p2r cs (snd ?c))" for cs
  proof -
    have "cacheLimit \<le> cacheCount (snd ?c)" using count assms(2) by simp
    from saturated_calls [OF this, of p2r cs p os]
    have n: "cached (compilePath_calls p2r cs (snd ?c)) p os = None"
      using same assms(1) by simp
    have "allocated (snd ?c) \<le> allocated (compilePath_calls p2r cs (snd ?c))"
      by (rule allocated_calls_mono)
    with n alloc show ?thesis by simp
  qed
  from same count alloc later assms show ?thesis
    by (simp add: compilePath_miss_fst)
qed

section \<open>Facts about matchPath\<close>

lemma cached_matchPath_calls_update [simp]:
  "cached (st\<lparr>matchPath_calls := x\<rparr>) p os = cached st p os"
  by (simp add: cached_def)

lemma cache_valid_matchPath_calls_update [simp]:
  "cache_valid p2r (st\<lparr>matchPath_calls := x\<rparr>) = cache_valid p2r st"
  by (simp add: cache_valid_def)

lemma matchPath_step_uncached:
  assumes "cache_valid p2r st"
  shows "fst (matchPath_step p2r pn ex str sens (acc, st) c) =
           uncached_step p2r pn ex str sens acc c
       \<and> cache_valid p2r (snd (matchPath_step p2r pn ex str sens (acc, st) c))
       \<and> matchPath_calls (snd (matchPath_step p2r pn ex str sens (acc, st) c)) =
           matchPath_calls st"
proof (cases acc)
  case (Inl e)
  with assms show ?thesis by (simp add: uncached_step_def)
next
  case (Inr matched)
  show ?thesis
  proof (cases c)
    case (JStr p)
    let ?os = "\<lparr>opt_end = ex, opt_strict = str, opt_sensitive = sens\<rparr>"
    let ?c = "compilePath p2r p ?os st"
    have v: "cache_valid p2r (snd ?c)"
      using assms by (rule cache_valid_compilePath)
    have l: "matchPath_calls (snd ?c) = matchPath_calls st"
      by (rule matchPath_calls_compilePath)
    show ?thesis
    proof (cases "p \<in> set object_prototype_names")
      case True
      have "fst ?c = PrototypeValue p"
        using assms True by (rule compilePath_inherited)
      with True v l assms show ?thesis
        by (auto simp: JStr Inr uncached_step_def match_candidate_def case_prod_beta)
    next
      case False
      from compilePath_equivalent [OF assms False, of ?os] obtain m where
        "fst ?c = Matcher m" "regexp m = fst (p2r p ?os)" "keys m = snd (p2r p ?os)"
        by blast
      with False v l assms show ?thesis
        by (auto simp: JStr Inr uncached_step_def match_candidate_def case_prod_beta Let_def
            split: option.split)
    qed
  next
    case JNull
    with assms Inr show ?thesis
      by (simp add: uncached_step_def no_pattern_def)
  next
    case JUndefined
    with assms Inr show ?thesis
      by (simp add: uncached_step_def no_pattern_def)
  qed
qed

lemma matchPath_fold_uncached:
  "cache_valid p2r st \<Longrightarrow>
     fst (foldl (matchPath_step p2r pn ex str sens) (acc, st) cs) =
       foldl (uncached_step p2r pn ex str sens) acc cs
     \<and> cache_valid p2r (snd (foldl (matchPath_step p2r pn ex str sens) (acc, st) cs))
     \<and> matchPath_calls (snd (foldl (matchPath_step p2r pn ex str sens) (acc, st) cs)) =
         matchPath_calls st"
proof (induction cs arbitrary: acc st)
  case Nil
  then show ?case by simp
next
  case (Cons c cs)
  obtain a' st' where s: "matchPath_step p2r pn ex str sens (acc, st) c = (a', st')"
    by force
  from matchPath_step_uncached [OF Cons.prems, of pn ex str sens acc c] s
  have "a' = uncached_step p2r pn ex str sens acc c" "cache_valid p2r st'"
    "matchPath_calls st' = matchPath_calls st"
    by simp_all
  with Cons.IH [of st' a'] s show ?case by simp
qed

lemma matchPath_uncached_eq:
  assumes "cache_valid p2r st"
  shows "fst (matchPath p2r pn arg st) = matchPath_uncached p2r pn arg
       \<and> cache_valid p2r (snd (matchPath p2r pn arg st))
       \<and> matchPath_calls (snd (matchPath p2r pn arg st)) =
           matchPath_calls st @ [(pn, props_path (normalize_options arg))]"
proof -
  let ?st0 = "st\<lparr>matchPath_calls := matchPath_calls st @ [(pn, props_path (normalize_options arg))]\<rparr>"
  have "cache_valid p2r ?st0" using assms by simp
  from matchPath_fold_uncached [OF this] show ?thesis
    by (simp add: matchPath_def matchPath_uncached_def Let_def)
qed

lemma uncached_step_Some:
  "uncached_step p2r pn ex str sens acc c = Inr (Some r) \<Longrightarrow>
     acc = Inr (Some r) \<or> (\<exists>p. c = JStr p \<and> match_candidate p2r pn ex str sens p = Inr (Some r))"
  by (cases c; cases acc) (auto simp: uncached_step_def split: if_splits)

lemma uncached_fold_Some:
  "foldl (uncached_step p2r pn ex str sens) acc cs = Inr (Some r) \<Longrightarrow>
     acc = Inr (Some r)
     \<or> (\<exists>p. JStr p \<in> set cs \<and> match_candidate p2r pn ex str sens p = Inr (Some r))"
proof (induction cs arbitrary: acc)
  case Nil
  then show ?case by simp
next
  case (Cons c cs)
  from Cons.prems
  have "foldl (uncached_step p2r pn ex str sens) (uncached_step p2r pn ex str sens acc c) cs
          = Inr (Some r)"
    by simp
  from Cons.IH [OF this] show ?case
    using uncached_step_Some [of p2r pn ex str sens acc c r] by auto
qed

lemma matchPath_uncached_Some:
  assumes "matchPath_uncached p2r pn arg = Inr (Some r)"
  shows "\<exists>p. JStr p \<in> set (concat_path (props_path (normalize_options arg)))
           \<and> match_candidate p2r pn (exact (normalize_options arg))
                (strict (normalize_options arg)) (sensitive (normalize_options arg)) p
              = Inr (Some r)"
  using uncached_fold_Some [of p2r pn _ _ _ "Inr None" _ r] assms
  by (simp add: matchPath_uncached_def Let_def)

lemma match_candidate_Some:
  assumes "match_candidate p2r pn ex str sens p = Inr (Some r)"
  shows "p \<notin> set object_prototype_names
       \<and> (\<exists>u vals. fst (p2r p \<lparr>opt_end = ex, opt_strict = str, opt_sensitive = sens\<rparr>) pn = Some (u, vals)
           \<and> \<not> (ex \<and> pn \<noteq> u)
           \<and> r = \<lparr>path = p, url = (if p = ''/'' \<and> u = [] then ''/'' else u), isExact = (pn = u),
                  params = build_params (snd (p2r p \<lparr>opt_end = ex, opt_strict = str, opt_sensitive = sens\<rparr>)) vals\<rparr>)"
  using assms
  by (auto simp: match_candidate_def Let_def split: option.splits if_splits)

lemma build_params_snoc:
  "build_params (ks @ [k]) vals =
     js_set (name k) (js_index vals (length ks)) (build_params ks vals)"
  by (simp add: build_params_def enumerate_append_eq)

lemma build_params_names:
  "Mapping.keys (build_params ks vals) = name ` set ks - {''__proto__''}"
proof (induction ks rule: rev_induct)
  case Nil
  then show ?case by (simp add: build_params_def)
next
  case (snoc k ks)
  then show ?case by (auto simp: build_params_snoc js_set_def)
qed

lemma build_params_lookup:
  "i < length ks \<Longrightarrow> name (ks ! i) \<noteq> ''__proto__'' \<Longrightarrow>
   \<forall>j. i < j \<and> j < length ks \<longrightarrow> name (ks ! j) \<noteq> name (ks ! i) \<Longrightarrow>
     Mapping.lookup (build_params ks vals) (name (ks ! i)) = Some (js_index vals i)"
proof (induction ks rule: rev_induct)
  case Nil
  then show ?case by simp
next
  case (snoc k ks)
  show ?case
  proof (cases "i < length ks")
    case True
    have later: "\<forall>j. i < j \<and> j < length ks \<longrightarrow> name (ks ! j) \<noteq> name (ks ! i)"
    proof (intro allI impI)
      fix j assume j: "i < j \<and> j < length ks"
      with snoc.prems(3) have "name ((ks @ [k]) ! j) \<noteq> name ((ks @ [k]) ! i)" by simp
      with j True show "name (ks ! j) \<noteq> name (ks ! i)" by (simp add: nth_append)
    qed
    have np: "name (ks ! i) \<noteq> ''__proto__''"
      using snoc.prems(2) True by (simp add: nth_append)
    have "name k \<noteq> name (ks ! i)"
      using snoc.prems(3) True by (auto simp: nth_append dest: spec [of _ "length ks"])
    with snoc.IH [OF True np later] True show ?thesis
      by (simp add: build_params_snoc js_set_def lookup_update' nth_append)
  next
    case False
    with snoc.prems(1) have "i = length ks" by simp
    with snoc.prems(2) show ?thesis
      by (simp add: build_params_snoc js_set_def lookup_update')
  qed
qed

lemma build_params_zip:
  assumes "distinct (map name ks)" and "length vals = length ks"
    and "''__proto__'' \<notin> name ` set ks"
  shows "Mapping.lookup (build_params ks vals) = map_of (zip (map name ks) vals)"
proof
  fix n
  show "Mapping.lookup (build_params ks vals) n = map_of (zip (map name ks) vals) n"
  proof (cases "n \<in> name ` set ks")
    case True
    then obtain i where i: "i < length ks" "n = name (ks ! i)"
      by (auto simp: in_set_conv_nth)
    have later: "\<forall>j. i < j \<and> j < length ks \<longrightarrow> name (ks ! j) \<noteq> name (ks ! i)"
      using assms(1) i(1) by (auto simp: distinct_conv_nth)
    have np: "name (ks ! i) \<noteq> ''__proto__''"
      using assms(3) i(1) nth_mem [of i ks] by (metis imageI)
    have "map_of (zip (map name ks) vals) (map name ks ! i) = Some (vals ! i)"
      using assms(1,2) i(1) by (intro map_of_zip_nth) simp_all
    with build_params_lookup [OF i(1) np later, of vals] i assms(2) show ?thesis
      by (simp add: js_index_def)
  next
    case False
    then have "n \<notin> Mapping.keys (build_params ks vals)"
      by (simp add: build_params_names)
    then have "Mapping.lookup (build_params ks vals) n = None"
      by (simp add: keys_dom_lookup domIff)
    moreover have "map_of (zip (map name ks) vals) n = None"
      using False assms(2) by (simp add: map_of_zip_is_None)
    ultimately show ?thesis by simp
  qed
qed

section \<open>The cache and the names every object inherits\<close>

lemma matchPath_single:
  assumes "cache_valid p2r st"
  shows "fst (matchPath p2r pn
            (ArgOptions \<lparr>props_path = One (JStr p), exact = ex, strict = str, sensitive = sens\<rparr>) st) =
          match_candidate p2r pn ex str sens p"
  using matchPath_uncached_eq [OF assms, of pn
      "ArgOptions \<lparr>props_path = One (JStr p), exact = ex, strict = str, sensitive = sens\<rparr>"]
  by (simp add: matchPath_uncached_def uncached_step_def no_pattern_def)

text \<open>
  Claim C4 says that compilePath builds the matcher of every pattern once while the
  counter is below the limit, builds an equivalent one on every call past the limit, and
  that the results of matchPath stay correct. The inner cache object is created as
  \<open>{}\<close>, and for a pattern that is the name of an inherited property, such as
  \<open>constructor\<close>, the read \<open>pathCache[path]\<close> finds the inherited value: in every state
  that the code can reach, compilePath returns that value, builds nothing, counts nothing
  and stores nothing, below the limit and at it, and matchPath with that pattern throws a
  TypeError for every pathname. For every other pattern compilePath returns an object
  with the regular expression and the keys that \<open>pathToRegexp\<close> gives.
\<close>

theorem compilePath_inherited_name:
  assumes "cache_valid p2r st" and "p \<in> set object_prototype_names"
  shows "fst (compilePath p2r p os st) = PrototypeValue p
       \<and> allocated (snd (compilePath p2r p os st)) = allocated st
       \<and> cacheCount (snd (compilePath p2r p os st)) = cacheCount st
       \<and> (\<forall>q qs. cached (snd (compilePath p2r p os st)) q qs = cached st q qs)
       \<and> (\<forall>pn ex str sens.
            fst (matchPath p2r pn
                  (ArgOptions \<lparr>props_path = One (JStr p), exact = ex, strict = str,
                                sensitive = sens\<rparr>) st)
              = Inl (TypeError ''Cannot read property exec of undefined''))
       \<and> (\<forall>q qs. q \<notin> set object_prototype_names \<longrightarrow>
            (\<exists>m. fst (compilePath p2r q qs st) = Matcher m
               \<and> regexp m = fst (p2r q qs) \<and> keys m = snd (p2r q qs)))"
proof (intro conjI allI impI)
  have none: "cached st p os = None" for os
    using assms by (cases "cached st p os") (auto simp: cache_valid_def)
  show "fst (compilePath p2r p os st) = PrototypeValue p"
    using assms by (rule compilePath_inherited)
  show "allocated (snd (compilePath p2r p os st)) = allocated st"
    using assms(2) by (simp add: allocated_compilePath)
  show "cacheCount (snd (compilePath p2r p os st)) = cacheCount st"
    using assms(2) by (simp add: cacheCount_compilePath)
  show "cached (snd (compilePath p2r p os st)) q qs = cached st q qs" for q qs
    using assms(2) by (simp add: cached_compilePath)
  show "fst (matchPath p2r pn
                  (ArgOptions \<lparr>props_path = One (JStr p), exact = ex, strict = str,
                                sensitive = sens\<rparr>) st)
              = Inl (TypeError ''Cannot read property exec of undefined'')" for pn ex str sens
    using assms(2) by (simp add: matchPath_single [OF assms(1)] match_candidate_def)
  show "\<exists>m. fst (compilePath p2r q qs st) = Matcher m
               \<and> regexp m = fst (p2r q qs) \<and> keys m = snd (p2r q qs)"
    if "q \<notin> set object_prototype_names" for q qs
    using assms(1) that by (rule compilePath_equivalent)
qed

theorem compilePath_inherited_name_witness:
  "fst (matchPath sample_pathToRegexp ''/x''
         (ArgOptions \<lparr>props_path = One (JStr ''constructor''), exact = False, strict = False,
                       sensitive = False\<rparr>) initial_state)
     = Inl (TypeError ''Cannot read property exec of undefined'')
   \<and> fst (compilePath sample_pathToRegexp ''constructor''
         \<lparr>opt_end = False, opt_strict = False, opt_sensitive = False\<rparr> initial_state)
     = PrototypeValue ''constructor''
   \<and> cacheCount (snd (compilePath sample_pathToRegexp ''constructor''
         \<lparr>opt_end = False, opt_strict = False, opt_sensitive = False\<rparr> initial_state)) = 0
   \<and> allocated (snd (compilePath sample_pathToRegexp ''constructor''
         \<lparr>opt_end = False, opt_strict = False, opt_sensitive = False\<rparr> initial_state)) = 0
   \<and> fst (sample_pathToRegexp ''constructor''
         \<lparr>opt_end = False, opt_strict = False, opt_sensitive = False\<rparr>) ''/x'' = None"
proof -
  have n: "''constructor'' \<in> set object_prototype_names"
    by (simp add: object_prototype_names_def)
  have z: "cacheCount initial_state = 0" "allocated initial_state = 0"
    by (simp_all add: initial_state_def)
  have r: "fst (sample_pathToRegexp ''constructor''
         \<lparr>opt_end = False, opt_strict = False, opt_sensitive = False\<rparr>) ''/x'' = None"
    by code_simp
  note t = compilePath_inherited_name [OF cache_valid_initial n, where p2r = sample_pathToRegexp
      and os = "\<lparr>opt_end = False, opt_strict = False, opt_sensitive = False\<rparr>"]
  from t [THEN conjunct1] t [THEN conjunct2, THEN conjunct1]
    t [THEN conjunct2, THEN conjunct2, THEN conjunct1]
    t [THEN conjunct2, THEN conjunct2, THEN conjunct2, THEN conjunct2, THEN conjunct1,
      THEN spec, THEN spec, THEN spec, THEN spec, of "''/x''" False False False]
    z r
  show ?thesis by simp
qed

section \<open>A falsy candidate after a match\<close>

lemma matchPath_step_falsy:
  "fst (matchPath_step p2r pn ex str sens acc JNull) =
     (case fst acc of Inl e \<Rightarrow> Inl e | Inr m \<Rightarrow> Inr None)"
  "fst (matchPath_step p2r pn ex str sens acc JUndefined) =
     (case fst acc of Inl e \<Rightarrow> Inl e | Inr m \<Rightarrow> Inr None)"
  by (cases acc; cases "fst acc"; simp add: no_pattern_def)+

lemma matchPath_last_falsy:
  "fst (matchPath p2r pn (ArgArray (cs @ [JNull])) st) \<noteq> Inr (Some r)
   \<and> fst (matchPath p2r pn (ArgArray (cs @ [JUndefined])) st) \<noteq> Inr (Some r)"
  by (auto simp: matchPath_def Let_def matchPath_step_falsy split: sum.splits)

lemma uncached_step_no_error:
  "uncached_step p2r pn ex str sens (Inr m) c = Inl e \<Longrightarrow>
     \<exists>p. c = JStr p \<and> p \<in> set object_prototype_names"
  by (cases c) (auto simp: uncached_step_def match_candidate_def Let_def
      split: if_splits option.splits)

lemma uncached_fold_no_error:
  "\<forall>p. JStr p \<in> set cs \<longrightarrow> p \<notin> set object_prototype_names \<Longrightarrow>
     \<exists>m. foldl (uncached_step p2r pn ex str sens) (Inr a) cs = Inr m"
proof (induction cs arbitrary: a)
  case Nil
  then show ?case by simp
next
  case (Cons c cs)
  have "\<exists>m. uncached_step p2r pn ex str sens (Inr a) c = Inr m"
  proof (cases "uncached_step p2r pn ex str sens (Inr a) c")
    case (Inl e)
    from uncached_step_no_error [OF this] Cons.prems show ?thesis by auto
  next
    case (Inr m)
    then show ?thesis by simp
  qed
  then obtain m where "uncached_step p2r pn ex str sens (Inr a) c = Inr m" by blast
  with Cons.IH [of m] Cons.prems show ?case by simp
qed

lemma matchPath_last_falsy_none:
  assumes "cache_valid p2r st"
    and "\<forall>p. JStr p \<in> set cs \<longrightarrow> p \<notin> set object_prototype_names"
  shows "fst (matchPath p2r pn (ArgArray (cs @ [JNull]) :: options matchPath_arg) st) = Inr None
       \<and> fst (matchPath p2r pn (ArgArray (cs @ [JUndefined]) :: options matchPath_arg) st) = Inr None"
proof -
  from uncached_fold_no_error [OF assms(2), of p2r pn False False False None]
  obtain m where "foldl (uncached_step p2r pn False False False) (Inr None) cs = Inr m"
    by blast
  then show ?thesis
    using matchPath_uncached_eq [OF assms(1), of pn "ArgArray (cs @ [JNull]) :: options matchPath_arg"]
      matchPath_uncached_eq [OF assms(1), of pn "ArgArray (cs @ [JUndefined]) :: options matchPath_arg"]
    by (simp add: matchPath_uncached_def uncached_step_def no_pattern_def)
qed

text \<open>
  Claim C1 says that a candidate that is falsy and not the empty string is skipped and
  that the result of the first matching candidate is returned. In the source the guard
  for such a candidate comes before the test of \<open>matched\<close> and returns \<open>null\<close>: it
  throws away a match found earlier. Whatever the candidates before it, an array that
  ends with \<open>null\<close> or \<open>undefined\<close> never gives a match: it gives \<open>null\<close>, unless a
  candidate that is an inherited name has thrown before. For the pathname \<open>/a\<close> the array
  \<open>["/a", null]\<close> gives \<open>null\<close>, where \<open>["/a"]\<close> and \<open>[null, "/a"]\<close> give the match
  of \<open>/a\<close>.
\<close>

theorem matchPath_falsy_candidate:
  "(\<forall>r. fst (matchPath p2r pn (ArgArray (cs @ [JNull]) :: options matchPath_arg) st) \<noteq> Inr (Some r))
   \<and> (\<forall>r. fst (matchPath p2r pn (ArgArray (cs @ [JUndefined]) :: options matchPath_arg) st)
          \<noteq> Inr (Some r))
   \<and> (cache_valid p2r st \<and> (\<forall>p. JStr p \<in> set cs \<longrightarrow> p \<notin> set object_prototype_names) \<longrightarrow>
        fst (matchPath p2r pn (ArgArray (cs @ [JNull]) :: options matchPath_arg) st) = Inr None
      \<and> fst (matchPath p2r pn (ArgArray (cs @ [JUndefined]) :: options matchPath_arg) st)
          = Inr None)
   \<and> fst (matchPath sample_pathToRegexp ''/a''
         (ArgArray [JStr ''/a'', JNull] :: options matchPath_arg) initial_state) = Inr None
   \<and> fst (matchPath sample_pathToRegexp ''/a''
         (ArgArray [JStr ''/a''] :: options matchPath_arg) initial_state)
     = Inr (Some \<lparr>path = ''/a'', url = ''/a'', isExact = True, params = Mapping.empty\<rparr>)
   \<and> fst (matchPath sample_pathToRegexp ''/a''
         (ArgArray [JNull, JStr ''/a''] :: options matchPath_arg) initial_state)
     = Inr (Some \<lparr>path = ''/a'', url = ''/a'', isExact = True, params = Mapping.empty\<rparr>)"
proof -
  have "fst (matchPath sample_pathToRegexp ''/a''
         (ArgArray [JStr ''/a'', JNull] :: options matchPath_arg) initial_state) = Inr None
   \<and> fst (matchPath sample_pathToRegexp ''/a''
         (ArgArray [JStr ''/a''] :: options matchPath_arg) initial_state)
     = Inr (Some \<lparr>path = ''/a'', url = ''/a'', isExact = True, params = Mapping.empty\<rparr>)
   \<and> fst (matchPath sample_pathToRegexp ''/a''
         (ArgArray [JNull, JStr ''/a''] :: options matchPath_arg) initial_state)
     = Inr (Some \<lparr>path = ''/a'', url = ''/a'', isExact = True, params = Mapping.empty\<rparr>)"
    by code_simp
  with matchPath_last_falsy [of p2r pn cs st] matchPath_last_falsy_none [of p2r st cs pn]
  show ?thesis by blast
qed

theorem matchPath_falsy_candidate_witness:
  "fst (matchPath sample_pathToRegexp ''/a''
         (ArgArray ([JStr ''/a''] @ [JUndefined]) :: options matchPath_arg) initial_state) = Inr None
   \<and> fst (matchPath sample_pathToRegexp ''/a''
         (ArgArray [JStr ''/a''] :: options matchPath_arg) initial_state)
     = Inr (Some \<lparr>path = ''/a'', url = ''/a'', isExact = True, params = Mapping.empty\<rparr>)"
proof -
  have ok: "\<forall>p. JStr p \<in> set [JStr ''/a''] \<longrightarrow> p \<notin> set object_prototype_names"
    by (simp add: object_prototype_names_def)
  note t = matchPath_falsy_candidate [of sample_pathToRegexp "''/a''" "[JStr ''/a'']" initial_state]
  from t [THEN conjunct2, THEN conjunct2, THEN conjunct1, THEN mp,
      OF conjI [OF cache_valid_initial ok], THEN conjunct2]
    t [THEN conjunct2, THEN conjunct2, THEN conjunct2, THEN conjunct2, THEN conjunct1]
  show ?thesis by (rule conjI)
qed

section \<open>The params of a match\<close>

text \<open>
  Claim C5 says that no parameter name of a successful match is bound to \<open>undefined\<close>.
  The source stores \<open>values[index]\<close> as it is. For the pattern \<open>/users/:id?\<close> and the
  pathname \<open>/users\<close> the optional group takes no part in the match, and the result binds
  \<open>id\<close> to \<open>undefined\<close>.
\<close>

theorem matchPath_params_counterexample:
  "fst (matchPath sample_pathToRegexp ''/users'' (ArgString ''/users/:id?'' :: options matchPath_arg)
         initial_state)
     = Inr (Some \<lparr>path = ''/users/:id?'', url = ''/users'', isExact = True,
                  params = Mapping.update ''id'' None Mapping.empty\<rparr>)"
  by code_simp

text \<open>
  Claim C5, as amended. For every successful match, made from the candidate \<open>path r\<close>
  whose regular expression gave the match array \<open>[u, ...vals]\<close>: the names stored in
  \<open>params\<close> are exactly the names of the matcher's keys other than \<open>__proto__\<close>, which an
  assignment cannot store in a plain object; each such name, at position \<open>i\<close> of the key
  list with no later key of the same name, is bound to the value at position \<open>i\<close>, which
  is \<open>undefined\<close> when that group took no part in the match or when there is no such
  value; and when the names are distinct, none is \<open>__proto__\<close> and there are as many
  values as keys, \<open>params\<close> binds the names as the list of names zipped with the list of
  values does.
\<close>

theorem matchPath_params:
  assumes "cache_valid p2r st"
    and "fst (matchPath p2r pn arg st) = Inr (Some r)"
  shows "\<exists>u vals.
           JStr (path r) \<in> set (concat_path (props_path (normalize_options arg)))
         \<and> fst (p2r (path r)
              \<lparr>opt_end = exact (normalize_options arg), opt_strict = strict (normalize_options arg),
               opt_sensitive = sensitive (normalize_options arg)\<rparr>) pn = Some (u, vals)
         \<and> (let ks = snd (p2r (path r)
              \<lparr>opt_end = exact (normalize_options arg), opt_strict = strict (normalize_options arg),
               opt_sensitive = sensitive (normalize_options arg)\<rparr>)
            in Mapping.keys (params r) = name ` set ks - {''__proto__''}
             \<and> (\<forall>i < length ks.
                   name (ks ! i) \<noteq> ''__proto__''
                   \<and> (\<forall>j. i < j \<and> j < length ks \<longrightarrow> name (ks ! j) \<noteq> name (ks ! i)) \<longrightarrow>
                   Mapping.lookup (params r) (name (ks ! i)) =
                     Some (if i < length vals then vals ! i else None))
             \<and> (distinct (map name ks) \<and> length vals = length ks
                  \<and> ''__proto__'' \<notin> name ` set ks \<longrightarrow>
                   Mapping.lookup (params r) = map_of (zip (map name ks) vals)))"
proof -
  let ?o = "normalize_options arg"
  let ?os = "\<lparr>opt_end = exact ?o, opt_strict = strict ?o, opt_sensitive = sensitive ?o\<rparr>"
  have "matchPath_uncached p2r pn arg = Inr (Some r)"
    using matchPath_uncached_eq [OF assms(1), of pn arg] assms(2) by simp
  from matchPath_uncached_Some [OF this] obtain p where
    p: "JStr p \<in> set (concat_path (props_path ?o))"
    and mc: "match_candidate p2r pn (exact ?o) (strict ?o) (sensitive ?o) p = Inr (Some r)"
    by blast
  from match_candidate_Some [OF mc] obtain u vals where
    ex: "fst (p2r p ?os) pn = Some (u, vals)"
    and r: "r = \<lparr>path = p, url = (if p = ''/'' \<and> u = [] then ''/'' else u), isExact = (pn = u),
                  params = build_params (snd (p2r p ?os)) vals\<rparr>"
    by blast
  have pr: "path r = p" and ps: "params r = build_params (snd (p2r p ?os)) vals"
    by (simp_all add: r)
  let ?ks = "snd (p2r p ?os)"
  have 1: "Mapping.keys (params r) = name ` set ?ks - {''__proto__''}"
    by (simp add: ps build_params_names)
  have 3: "\<forall>i < length ?ks.
             name (?ks ! i) \<noteq> ''__proto__''
             \<and> (\<forall>j. i < j \<and> j < length ?ks \<longrightarrow> name (?ks ! j) \<noteq> name (?ks ! i)) \<longrightarrow>
             Mapping.lookup (params r) (name (?ks ! i)) =
               Some (if i < length vals then vals ! i else None)"
    using build_params_lookup [of _ ?ks vals] by (simp add: ps js_index_def)
  have 4: "distinct (map name ?ks) \<and> length vals = length ?ks \<and> ''__proto__'' \<notin> name ` set ?ks \<longrightarrow>
             Mapping.lookup (params r) = map_of (zip (map name ?ks) vals)"
    using build_params_zip [of ?ks vals] by (simp add: ps)
  from p ex 1 3 4 show ?thesis
    unfolding pr Let_def by blast
qed

theorem matchPath_params_witness:
  "fst (matchPath sample_pathToRegexp ''/one/two'' (ArgString ''/one/:id'' :: options matchPath_arg)
         initial_state)
     = Inr (Some \<lparr>path = ''/one/:id'', url = ''/one/two'', isExact = True,
                  params = Mapping.update ''id'' (Some ''two'') Mapping.empty\<rparr>)
   \<and> Mapping.keys (Mapping.update ''id'' (Some ''two'') Mapping.empty) =
       name ` set (snd (sample_pathToRegexp ''/one/:id''
          \<lparr>opt_end = False, opt_strict = False, opt_sensitive = False\<rparr>)) - {''__proto__''}
   \<and> fst (matchPath sample_pathToRegexp ''/x/y'' (ArgString ''/:__proto__/:0'' :: options matchPath_arg)
         initial_state)
     = Inr (Some \<lparr>path = ''/:__proto__/:0'', url = ''/x/y'', isExact = True,
                  params = Mapping.update ''0'' (Some ''y'') Mapping.empty\<rparr>)"
proof -
  have run: "fst (matchPath sample_pathToRegexp ''/one/two''
         (ArgString ''/one/:id'' :: options matchPath_arg) initial_state)
     = Inr (Some \<lparr>path = ''/one/:id'', url = ''/one/two'', isExact = True,
                  params = Mapping.update ''id'' (Some ''two'') Mapping.empty\<rparr>)"
    by code_simp
  have proto: "fst (matchPath sample_pathToRegexp ''/x/y''
         (ArgString ''/:__proto__/:0'' :: options matchPath_arg) initial_state)
     = Inr (Some \<lparr>path = ''/:__proto__/:0'', url = ''/x/y'', isExact = True,
                  params = Mapping.update ''0'' (Some ''y'') Mapping.empty\<rparr>)"
    by code_simp
  from matchPath_params [OF cache_valid_initial run]
  have "Mapping.keys (Mapping.update ''id'' (Some ''two'') Mapping.empty) =
       name ` set (snd (sample_pathToRegexp ''/one/:id''
          \<lparr>opt_end = False, opt_strict = False, opt_sensitive = False\<rparr>)) - {''__proto__''}"
    by (auto simp: Let_def)
  with run proto show ?thesis by (intro conjI)
qed

section \<open>The url of a match\<close>

text \<open>
  Claim C9. Whenever matchPath returns a result, it comes from a candidate whose regular
  expression gave a match array \<open>[u, ...vals]\<close> on the pathname, and the \<open>url\<close> of the
  result is \<open>u\<close> unchanged, except that for the pattern \<open>/\<close> an empty \<open>u\<close> becomes
  \<open>/\<close>; so the \<open>url\<close> of a match of the pattern \<open>/\<close> is never empty. For the pathname
  \<open>/\<close> and the pattern \<open>/\<close>: when the regular expression matches a prefix of the
  pathname (the whole of it if \<open>exact\<close> is set), matchPath returns a result and its \<open>url\<close>
  is \<open>/\<close>.
\<close>

theorem matchPath_root_url:
  assumes "cache_valid p2r st"
  shows "(\<forall>r. fst (matchPath p2r pn arg st) = Inr (Some r) \<longrightarrow>
            (\<exists>u vals.
               fst (p2r (path r)
                 \<lparr>opt_end = exact (normalize_options arg),
                  opt_strict = strict (normalize_options arg),
                  opt_sensitive = sensitive (normalize_options arg)\<rparr>) pn = Some (u, vals)
             \<and> url r = (if path r = ''/'' \<and> u = [] then ''/'' else u)
             \<and> (path r \<noteq> ''/'' \<longrightarrow> url r = u))
          \<and> (path r = ''/'' \<longrightarrow> url r \<noteq> []))
       \<and> (\<forall>u vals.
            fst (p2r ''/'' \<lparr>opt_end = ex, opt_strict = str, opt_sensitive = sens\<rparr>) ''/''
              = Some (u, vals)
            \<and> prefix u ''/'' \<and> (ex \<longrightarrow> u = ''/'') \<longrightarrow>
            (\<exists>r. fst (matchPath p2r ''/''
                    (ArgOptions \<lparr>props_path = One (JStr ''/''), exact = ex, strict = str,
                                  sensitive = sens\<rparr>) st) = Inr (Some r)
               \<and> url r = ''/''))"
proof (intro conjI allI impI)
  fix r
  assume a: "fst (matchPath p2r pn arg st) = Inr (Some r)"
  let ?o = "normalize_options arg"
  have "matchPath_uncached p2r pn arg = Inr (Some r)"
    using matchPath_uncached_eq [OF assms, of pn arg] a by simp
  from matchPath_uncached_Some [OF this] obtain p where
    mc: "match_candidate p2r pn (exact ?o) (strict ?o) (sensitive ?o) p = Inr (Some r)"
    by blast
  from match_candidate_Some [OF mc] obtain u vals where
    e: "fst (p2r p \<lparr>opt_end = exact ?o, opt_strict = strict ?o, opt_sensitive = sensitive ?o\<rparr>) pn
          = Some (u, vals)"
    and r: "r = \<lparr>path = p, url = (if p = ''/'' \<and> u = [] then ''/'' else u), isExact = (pn = u),
                  params = build_params (snd (p2r p
                    \<lparr>opt_end = exact ?o, opt_strict = strict ?o, opt_sensitive = sensitive ?o\<rparr>)) vals\<rparr>"
    by blast
  show "\<exists>u vals.
          fst (p2r (path r)
            \<lparr>opt_end = exact ?o, opt_strict = strict ?o, opt_sensitive = sensitive ?o\<rparr>) pn
            = Some (u, vals)
        \<and> url r = (if path r = ''/'' \<and> u = [] then ''/'' else u)
        \<and> (path r \<noteq> ''/'' \<longrightarrow> url r = u)"
    using e by (intro exI [of _ u] exI [of _ vals]) (simp add: r)
  show "url r \<noteq> []" if "path r = ''/''"
    using that by (simp add: r)
next
  fix u vals
  assume a: "fst (p2r ''/'' \<lparr>opt_end = ex, opt_strict = str, opt_sensitive = sens\<rparr>) ''/''
               = Some (u, vals) \<and> prefix u ''/'' \<and> (ex \<longrightarrow> u = ''/'')"
  then have u: "u = [] \<or> u = ''/''"
    by (cases u) (auto simp: prefix_Cons)
  have own: "''/'' \<notin> set object_prototype_names"
    by (simp add: object_prototype_names_def)
  show "\<exists>r. fst (matchPath p2r ''/''
                (ArgOptions \<lparr>props_path = One (JStr ''/''), exact = ex, strict = str,
                              sensitive = sens\<rparr>) st) = Inr (Some r)
           \<and> url r = ''/''"
    using a u own by (auto simp: matchPath_single [OF assms] match_candidate_def)
qed

theorem matchPath_root_url_witness:
  "fst (matchPath sample_pathToRegexp ''/''
         (ArgOptions \<lparr>props_path = One (JStr ''/''), exact = False, strict = False,
                       sensitive = False\<rparr>) initial_state)
     = Inr (Some \<lparr>path = ''/'', url = ''/'', isExact = True, params = Mapping.empty\<rparr>)
   \<and> fst (sample_pathToRegexp ''/''
         \<lparr>opt_end = False, opt_strict = False, opt_sensitive = False\<rparr>) ''/x'' = Some ([], [])
   \<and> fst (matchPath sample_pathToRegexp ''/x''
         (ArgOptions \<lparr>props_path = One (JStr ''/''), exact = False, strict = False,
                       sensitive = False\<rparr>) initial_state)
     = Inr (Some \<lparr>path = ''/'', url = ''/'', isExact = False, params = Mapping.empty\<rparr>)
   \<and> fst (matchPath sample_pathToRegexp ''/one/two''
         (ArgOptions \<lparr>props_path = One (JStr ''/one''), exact = False, strict = False,
                       sensitive = False\<rparr>) initial_state)
     = Inr (Some \<lparr>path = ''/one'', url = ''/one'', isExact = False, params = Mapping.empty\<rparr>)"
proof -
  have 1: "fst (matchPath sample_pathToRegexp ''/''
         (ArgOptions \<lparr>props_path = One (JStr ''/''), exact = False, strict = False,
                       sensitive = False\<rparr>) initial_state)
     = Inr (Some \<lparr>path = ''/'', url = ''/'', isExact = True, params = Mapping.empty\<rparr>)"
    by code_simp
  have 2: "fst (sample_pathToRegexp ''/''
         \<lparr>opt_end = False, opt_strict = False, opt_sensitive = False\<rparr>) ''/x'' = Some ([], [])"
    by code_simp
  have 3: "fst (matchPath sample_pathToRegexp ''/x''
         (ArgOptions \<lparr>props_path = One (JStr ''/''), exact = False, strict = False,
                       sensitive = False\<rparr>) initial_state)
     = Inr (Some \<lparr>path = ''/'', url = ''/'', isExact = False, params = Mapping.empty\<rparr>)"
    by code_simp
  have 4: "fst (matchPath sample_pathToRegexp ''/one/two''
         (ArgOptions \<lparr>props_path = One (JStr ''/one''), exact = False, strict = False,
                       sensitive = False\<rparr>) initial_state)
     = Inr (Some \<lparr>path = ''/one'', url = ''/one'', isExact = False, params = Mapping.empty\<rparr>)"
    by code_simp
  note t = matchPath_root_url [OF cache_valid_initial, of sample_pathToRegexp "''/x''"
      "ArgOptions \<lparr>props_path = One (JStr ''/''), exact = False, strict = False, sensitive = False\<rparr>"
      False False False]
  from t [THEN conjunct1, THEN spec, THEN mp, OF 3]
  have "url \<lparr>path = ''/'', url = ''/'', isExact = False, params = Mapping.empty\<rparr> \<noteq> []"
    by simp
  with 1 2 3 4 show ?thesis by simp
qed

section \<open>Router: locations that arrive before the mount\<close>

lemma emit_before_mount:
  "subscribed r \<Longrightarrow> \<not> isMounted r \<Longrightarrow>
     foldl history_emit r locs =
       r\<lparr>pendingLocation := (if locs = [] then pendingLocation r else Some (last locs))\<rparr>"
proof (induction locs arbitrary: r)
  case Nil
  then show ?case by simp
next
  case (Cons l ls)
  have step: "history_emit r l = r\<lparr>pendingLocation := Some l\<rparr>"
    using Cons.prems by (simp add: history_emit_def Router_listener_def)
  have "foldl history_emit (r\<lparr>pendingLocation := Some l\<rparr>) ls =
          r\<lparr>pendingLocation := Some l\<rparr>
            \<lparr>pendingLocation := (if ls = [] then Some l else Some (last ls))\<rparr>"
    using Cons.IH [of "r\<lparr>pendingLocation := Some l\<rparr>"] Cons.prems by simp
  with step show ?case by simp
qed

text \<open>
  Claim C2. A Router that listens (no \<open>staticContext\<close>) is built and the history then
  announces the locations \<open>locs\<close> before \<open>componentDidMount\<close> runs. Every callback that
  runs while the Router is not mounted changes the pending slot and nothing else; after
  all of them the current location is still the initial one and the slot holds the last
  location announced (nothing if there was none); \<open>componentDidMount\<close> then makes the
  last announced location the current one, or keeps the initial location when none was
  announced.
\<close>

theorem Router_pending_buffer:
  assumes "\<not> staticContext props"
    and "r = foldl history_emit (Router_constructor props) locs"
  shows "(\<forall>q loc. \<not> isMounted q \<longrightarrow> Router_listener loc q = q\<lparr>pendingLocation := Some loc\<rparr>)
       \<and> location r = history_location props
       \<and> isMounted r = False
       \<and> pendingLocation r = (if locs = [] then None else Some (last locs))
       \<and> isMounted (componentDidMount r)
       \<and> location (componentDidMount r) =
           (if locs = [] then history_location props else last locs)"
proof -
  let ?r0 = "Router_constructor props"
  have s: "subscribed ?r0" and m: "\<not> isMounted ?r0"
    using assms(1) by (simp_all add: Router_constructor_def)
  have r: "r = ?r0\<lparr>pendingLocation := (if locs = [] then pendingLocation ?r0 else Some (last locs))\<rparr>"
    using emit_before_mount [OF s m, of locs] assms(2) by simp
  show ?thesis
    by (simp add: r Router_listener_def componentDidMount_def Router_constructor_def)
qed

theorem Router_pending_buffer_witness:
  "location (componentDidMount (foldl history_emit
       (Router_constructor \<lparr>history_location = \<lparr>pathname = ''/'', search = [], hash = []\<rparr>,
                            staticContext = False\<rparr>)
       [\<lparr>pathname = ''/a'', search = [], hash = []\<rparr>,
        \<lparr>pathname = ''/b'', search = [], hash = []\<rparr>]))
     = \<lparr>pathname = ''/b'', search = [], hash = []\<rparr>
   \<and> location (foldl history_emit
       (Router_constructor \<lparr>history_location = \<lparr>pathname = ''/'', search = [], hash = []\<rparr>,
                            staticContext = False\<rparr>)
       [\<lparr>pathname = ''/a'', search = [], hash = []\<rparr>,
        \<lparr>pathname = ''/b'', search = [], hash = []\<rparr>])
     = \<lparr>pathname = ''/'', search = [], hash = []\<rparr>"
  using Router_pending_buffer
    [of "\<lparr>history_location = \<lparr>pathname = ''/'', search = [], hash = []\<rparr>, staticContext = False\<rparr>"
        _ "[\<lparr>pathname = ''/a'', search = [], hash = []\<rparr>, \<lparr>pathname = ''/b'', search = [], hash = []\<rparr>]",
     OF _ refl]
  by simp




section \<open>Route: the effective match\<close>

lemma truthy_spec_pattern_present: "truthy v = spec_pattern_present v"
  by (cases v rule: truthy.cases; cases v; simp add: spec_pattern_present_def split: candidate.split)

lemma normalize_props [simp]:
  "props_path (normalize_options (ArgOptions ps)) = props_path ps"
  "exact (normalize_options (ArgOptions ps)) = exact ps"
  "strict (normalize_options (ArgOptions ps)) = strict ps"
  "sensitive (normalize_options (ArgOptions ps)) = sensitive ps"
  by simp_all

lemma Route_render_computed:
  "computedMatch ps = Some cm \<Longrightarrow>
     Route_render p2r (Some cx) ps st =
       (Inr \<lparr>provided = \<lparr>ctx_location = (case props_location ps of Some l \<Rightarrow> l | None \<Rightarrow> ctx_location cx),
                           ctx_match = Some cm\<rparr>,
             rendered = select_rendering
               \<lparr>ctx_location = (case props_location ps of Some l \<Rightarrow> l | None \<Rightarrow> ctx_location cx),
                ctx_match = Some cm\<rparr>
               (if children ps = EmptyChildrenArray then NoChildren else children ps)
               (component ps) (render ps)\<rparr>, st)"
  by (simp add: Route_render_def Let_def)

lemma Route_render_inherit:
  "computedMatch ps = None \<Longrightarrow> \<not> truthy (props_path ps) \<Longrightarrow>
     Route_render p2r (Some cx) ps st =
       (Inr \<lparr>provided = \<lparr>ctx_location = (case props_location ps of Some l \<Rightarrow> l | None \<Rightarrow> ctx_location cx),
                           ctx_match = ctx_match cx\<rparr>,
             rendered = select_rendering
               \<lparr>ctx_location = (case props_location ps of Some l \<Rightarrow> l | None \<Rightarrow> ctx_location cx),
                ctx_match = ctx_match cx\<rparr>
               (if children ps = EmptyChildrenArray then NoChildren else children ps)
               (component ps) (render ps)\<rparr>, st)"
  by (simp add: Route_render_def Let_def)

lemma Route_render_matchPath:
  "computedMatch ps = None \<Longrightarrow> truthy (props_path ps) \<Longrightarrow>
   loc = (case props_location ps of Some l \<Rightarrow> l | None \<Rightarrow> ctx_location cx) \<Longrightarrow>
     Route_render p2r (Some cx) ps st =
       (case fst (matchPath p2r (pathname loc) (ArgOptions ps) st) of
          Inl e \<Rightarrow> Inl e
        | Inr m \<Rightarrow>
            Inr \<lparr>provided = \<lparr>ctx_location = loc, ctx_match = m\<rparr>,
                 rendered = select_rendering \<lparr>ctx_location = loc, ctx_match = m\<rparr>
                   (if children ps = EmptyChildrenArray then NoChildren else children ps)
                   (component ps) (render ps)\<rparr>,
        snd (matchPath p2r (pathname loc) (ArgOptions ps) st))"
  by (simp add: Route_render_def Let_def case_prod_beta split: sum.split)

text \<open>
  Claim C7. A Route inside a Router uses as location its own \<open>location\<close> prop when it has
  one and the inherited location otherwise. When a \<open>computedMatch\<close> is supplied, it
  provides that match as it is and does not touch the module state. Otherwise, when the
  \<open>path\<close> prop is present (a non-empty string or an array), it calls matchPath once on
  the pathname of that location and its props: what matchPath returns is the match it
  provides, what matchPath throws it throws, and the result is the one computed without a
  cache. Otherwise it provides the inherited match and does not touch the module state.
\<close>

theorem Route_effective_match:
  assumes "cache_valid p2r st"
    and "loc = (case props_location ps of Some l \<Rightarrow> l | None \<Rightarrow> ctx_location cx)"
  shows "(\<forall>cm. computedMatch ps = Some cm \<longrightarrow>
            (\<exists>out. Route_render p2r (Some cx) ps st = (Inr out, st)
               \<and> provided out = \<lparr>ctx_location = loc, ctx_match = Some cm\<rparr>))
       \<and> (computedMatch ps = None \<and> spec_pattern_present (props_path ps) \<longrightarrow>
            snd (Route_render p2r (Some cx) ps st) =
              snd (matchPath p2r (pathname loc) (ArgOptions ps) st)
          \<and> (\<forall>e. fst (matchPath p2r (pathname loc) (ArgOptions ps) st) = Inl e \<longrightarrow>
                fst (Route_render p2r (Some cx) ps st) = Inl e)
          \<and> (\<forall>m. fst (matchPath p2r (pathname loc) (ArgOptions ps) st) = Inr m \<longrightarrow>
                (\<exists>out. fst (Route_render p2r (Some cx) ps st) = Inr out
                   \<and> provided out = \<lparr>ctx_location = loc, ctx_match = m\<rparr>))
          \<and> fst (matchPath p2r (pathname loc) (ArgOptions ps) st) =
              matchPath_uncached p2r (pathname loc) (ArgOptions ps)
          \<and> matchPath_calls (snd (Route_render p2r (Some cx) ps st)) =
              matchPath_calls st @ [(pathname loc, props_path ps)])
       \<and> (computedMatch ps = None \<and> \<not> spec_pattern_present (props_path ps) \<longrightarrow>
            (\<exists>out. Route_render p2r (Some cx) ps st = (Inr out, st)
               \<and> provided out = \<lparr>ctx_location = loc, ctx_match = ctx_match cx\<rparr>))"
proof (intro conjI allI impI)
  fix cm assume "computedMatch ps = Some cm"
  then show "\<exists>out. Route_render p2r (Some cx) ps st = (Inr out, st)
               \<and> provided out = \<lparr>ctx_location = loc, ctx_match = Some cm\<rparr>"
    using assms(2) by (simp add: Route_render_computed)
next
  assume "computedMatch ps = None \<and> \<not> spec_pattern_present (props_path ps)"
  then show "\<exists>out. Route_render p2r (Some cx) ps st = (Inr out, st)
               \<and> provided out = \<lparr>ctx_location = loc, ctx_match = ctx_match cx\<rparr>"
    using assms(2) by (simp add: Route_render_inherit truthy_spec_pattern_present)
next
  assume a: "computedMatch ps = None \<and> spec_pattern_present (props_path ps)"
  then have n: "computedMatch ps = None" and t: "truthy (props_path ps)"
    by (simp_all add: truthy_spec_pattern_present)
  note r = Route_render_matchPath [OF n t assms(2), of p2r st]
  show "snd (Route_render p2r (Some cx) ps st) =
          snd (matchPath p2r (pathname loc) (ArgOptions ps) st)"
    by (simp add: r)
  show "fst (matchPath p2r (pathname loc) (ArgOptions ps) st) =
          matchPath_uncached p2r (pathname loc) (ArgOptions ps)"
    using matchPath_uncached_eq [OF assms(1), of "pathname loc" "ArgOptions ps"]
    by (rule conjunct1)
  show "matchPath_calls (snd (Route_render p2r (Some cx) ps st)) =
          matchPath_calls st @ [(pathname loc, props_path ps)]"
    using matchPath_uncached_eq [OF assms(1), of "pathname loc" "ArgOptions ps"]
    by (simp add: r)
  fix e assume "fst (matchPath p2r (pathname loc) (ArgOptions ps) st) = Inl e"
  then show "fst (Route_render p2r (Some cx) ps st) = Inl e"
    by (simp add: r)
next
  fix m
  assume a: "computedMatch ps = None \<and> spec_pattern_present (props_path ps)"
    and m: "fst (matchPath p2r (pathname loc) (ArgOptions ps) st) = Inr m"
  from a have n: "computedMatch ps = None" and t: "truthy (props_path ps)"
    by (simp_all add: truthy_spec_pattern_present)
  show "\<exists>out. fst (Route_render p2r (Some cx) ps st) = Inr out
          \<and> provided out = \<lparr>ctx_location = loc, ctx_match = m\<rparr>"
    by (simp add: Route_render_matchPath [OF n t assms(2)] m)
qed


theorem Route_effective_match_witness:
  "fst (Route_render sample_pathToRegexp
     (Some \<lparr>ctx_location = \<lparr>pathname = ''/one/two'', search = [], hash = []\<rparr>,
            ctx_match = Some (computeRootMatch ''/one/two'')\<rparr>)
     \<lparr>props_path = One (JStr ''/one/:id''), exact = False, strict = False, sensitive = False,
      props_from = One JUndefined, props_location = None, computedMatch = None,
      children = NoChildren, component = Some ''Page'', render = None\<rparr> initial_state)
   = Inr \<lparr>provided = \<lparr>ctx_location = \<lparr>pathname = ''/one/two'', search = [], hash = []\<rparr>,
                       ctx_match = Some \<lparr>path = ''/one/:id'', url = ''/one/two'', isExact = True,
                         params = Mapping.update ''id'' (Some ''two'') Mapping.empty\<rparr>\<rparr>,
          rendered = CreateElement ''Page''
            \<lparr>ctx_location = \<lparr>pathname = ''/one/two'', search = [], hash = []\<rparr>,
             ctx_match = Some \<lparr>path = ''/one/:id'', url = ''/one/two'', isExact = True,
               params = Mapping.update ''id'' (Some ''two'') Mapping.empty\<rparr>\<rparr>\<rparr>
   \<and> matchPath_calls (snd (Route_render sample_pathToRegexp
     (Some \<lparr>ctx_location = \<lparr>pathname = ''/one/two'', search = [], hash = []\<rparr>,
            ctx_match = Some (computeRootMatch ''/one/two'')\<rparr>)
     \<lparr>props_path = One (JStr ''/one/:id''), exact = False, strict = False, sensitive = False,
      props_from = One JUndefined, props_location = None, computedMatch = None,
      children = NoChildren, component = Some ''Page'', render = None\<rparr> initial_state))
   = [(''/one/two'', One (JStr ''/one/:id''))]
   \<and> fst (Route_render sample_pathToRegexp
     (Some \<lparr>ctx_location = \<lparr>pathname = ''/one/two'', search = [], hash = []\<rparr>,
            ctx_match = Some (computeRootMatch ''/one/two'')\<rparr>)
     \<lparr>props_path = One (JStr ''/other''), exact = False, strict = False, sensitive = False,
      props_from = One JUndefined,
      props_location = Some \<lparr>pathname = ''/here'', search = [], hash = []\<rparr>,
      computedMatch = Some \<lparr>path = ''/c'', url = ''/c'', isExact = True, params = Mapping.empty\<rparr>,
      children = NoChildren, component = Some ''Page'', render = None\<rparr> initial_state)
   = Inr \<lparr>provided = \<lparr>ctx_location = \<lparr>pathname = ''/here'', search = [], hash = []\<rparr>,
                       ctx_match = Some \<lparr>path = ''/c'', url = ''/c'', isExact = True,
                         params = Mapping.empty\<rparr>\<rparr>,
          rendered = CreateElement ''Page''
            \<lparr>ctx_location = \<lparr>pathname = ''/here'', search = [], hash = []\<rparr>,
             ctx_match = Some \<lparr>path = ''/c'', url = ''/c'', isExact = True,
               params = Mapping.empty\<rparr>\<rparr>\<rparr>
   \<and> fst (Route_render sample_pathToRegexp
     (Some \<lparr>ctx_location = \<lparr>pathname = ''/one/two'', search = [], hash = []\<rparr>,
            ctx_match = Some (computeRootMatch ''/one/two'')\<rparr>)
     \<lparr>props_path = One JUndefined, exact = False, strict = False, sensitive = False,
      props_from = One JUndefined, props_location = None, computedMatch = None,
      children = NoChildren, component = Some ''Page'', render = None\<rparr> initial_state)
   = Inr \<lparr>provided = \<lparr>ctx_location = \<lparr>pathname = ''/one/two'', search = [], hash = []\<rparr>,
                       ctx_match = Some \<lparr>path = ''/'', url = ''/'', isExact = False,
                         params = Mapping.empty\<rparr>\<rparr>,
          rendered = CreateElement ''Page''
            \<lparr>ctx_location = \<lparr>pathname = ''/one/two'', search = [], hash = []\<rparr>,
             ctx_match = Some \<lparr>path = ''/'', url = ''/'', isExact = False,
               params = Mapping.empty\<rparr>\<rparr>\<rparr>
   \<and> fst (Route_render sample_pathToRegexp
     (Some \<lparr>ctx_location = \<lparr>pathname = ''/one/two'', search = [], hash = []\<rparr>,
            ctx_match = Some (computeRootMatch ''/one/two'')\<rparr>)
     \<lparr>props_path = One (JStr ''toString''), exact = False, strict = False, sensitive = False,
      props_from = One JUndefined, props_location = None, computedMatch = None,
      children = NoChildren, component = Some ''Page'', render = None\<rparr> initial_state)
   = Inl (TypeError ''Cannot read property exec of undefined'')"
proof -
  let ?cx = "\<lparr>ctx_location = \<lparr>pathname = ''/one/two'', search = [], hash = []\<rparr>,
            ctx_match = Some (computeRootMatch ''/one/two'')\<rparr>"
  let ?ps = "\<lparr>props_path = One (JStr ''/one/:id''), exact = False, strict = False, sensitive = False,
      props_from = One JUndefined, props_location = None, computedMatch = None,
      children = NoChildren, component = Some ''Page'', render = None\<rparr>"
  have run: "fst (Route_render sample_pathToRegexp (Some ?cx) ?ps initial_state)
   = Inr \<lparr>provided = \<lparr>ctx_location = \<lparr>pathname = ''/one/two'', search = [], hash = []\<rparr>,
                       ctx_match = Some \<lparr>path = ''/one/:id'', url = ''/one/two'', isExact = True,
                         params = Mapping.update ''id'' (Some ''two'') Mapping.empty\<rparr>\<rparr>,
          rendered = CreateElement ''Page''
            \<lparr>ctx_location = \<lparr>pathname = ''/one/two'', search = [], hash = []\<rparr>,
             ctx_match = Some \<lparr>path = ''/one/:id'', url = ''/one/two'', isExact = True,
               params = Mapping.update ''id'' (Some ''two'') Mapping.empty\<rparr>\<rparr>\<rparr>"
    by code_simp
  have a: "fst (Route_render sample_pathToRegexp (Some ?cx)
     \<lparr>props_path = One (JStr ''/other''), exact = False, strict = False, sensitive = False,
      props_from = One JUndefined,
      props_location = Some \<lparr>pathname = ''/here'', search = [], hash = []\<rparr>,
      computedMatch = Some \<lparr>path = ''/c'', url = ''/c'', isExact = True, params = Mapping.empty\<rparr>,
      children = NoChildren, component = Some ''Page'', render = None\<rparr> initial_state)
   = Inr \<lparr>provided = \<lparr>ctx_location = \<lparr>pathname = ''/here'', search = [], hash = []\<rparr>,
                       ctx_match = Some \<lparr>path = ''/c'', url = ''/c'', isExact = True,
                         params = Mapping.empty\<rparr>\<rparr>,
          rendered = CreateElement ''Page''
            \<lparr>ctx_location = \<lparr>pathname = ''/here'', search = [], hash = []\<rparr>,
             ctx_match = Some \<lparr>path = ''/c'', url = ''/c'', isExact = True,
               params = Mapping.empty\<rparr>\<rparr>\<rparr>"
    by code_simp
  have c: "fst (Route_render sample_pathToRegexp (Some ?cx)
     \<lparr>props_path = One JUndefined, exact = False, strict = False, sensitive = False,
      props_from = One JUndefined, props_location = None, computedMatch = None,
      children = NoChildren, component = Some ''Page'', render = None\<rparr> initial_state)
   = Inr \<lparr>provided = \<lparr>ctx_location = \<lparr>pathname = ''/one/two'', search = [], hash = []\<rparr>,
                       ctx_match = Some \<lparr>path = ''/'', url = ''/'', isExact = False,
                         params = Mapping.empty\<rparr>\<rparr>,
          rendered = CreateElement ''Page''
            \<lparr>ctx_location = \<lparr>pathname = ''/one/two'', search = [], hash = []\<rparr>,
             ctx_match = Some \<lparr>path = ''/'', url = ''/'', isExact = False,
               params = Mapping.empty\<rparr>\<rparr>\<rparr>"
    by code_simp
  have e: "fst (Route_render sample_pathToRegexp (Some ?cx)
     \<lparr>props_path = One (JStr ''toString''), exact = False, strict = False, sensitive = False,
      props_from = One JUndefined, props_location = None, computedMatch = None,
      children = NoChildren, component = Some ''Page'', render = None\<rparr> initial_state)
   = Inl (TypeError ''Cannot read property exec of undefined'')"
    by code_simp
  have z: "matchPath_calls initial_state = []"
    by (simp add: initial_state_def)
  have loc: "ctx_location ?cx = (case props_location ?ps of Some l \<Rightarrow> l | None \<Rightarrow> ctx_location ?cx)"
    by simp
  have pre: "computedMatch ?ps = None \<and> spec_pattern_present (props_path ?ps)"
    by (simp add: spec_pattern_present_def)
  note t = Route_effective_match [OF cache_valid_initial loc, where p2r = sample_pathToRegexp,
      THEN conjunct2, THEN conjunct1, THEN mp, OF pre]
  from t [THEN conjunct2, THEN conjunct2, THEN conjunct2, THEN conjunct2]
  have calls: "matchPath_calls (snd (Route_render sample_pathToRegexp (Some ?cx) ?ps initial_state))
     = [(''/one/two'', One (JStr ''/one/:id''))]"
    using z by simp
  from run calls a c e show ?thesis by (intro conjI)
qed

section \<open>Route: the empty path\<close>

text \<open>
  Claim C10. A Route whose \<open>path\<close> prop is the empty string and that has no
  \<open>computedMatch\<close> provides the inherited match and leaves the module state as it is: no
  call of matchPath is recorded. matchPath itself does not skip the empty string: its
  guard is false for it, and a call with the same props is recorded and returns what the
  matcher compiled for the pattern \<open>""\<close> gives on the pathname.
\<close>

theorem Route_empty_path:
  assumes "props_path ps = One (JStr [])" and "computedMatch ps = None"
  shows "(\<exists>out. Route_render p2r (Some cx) ps st = (Inr out, st)
            \<and> ctx_match (provided out) = ctx_match cx)
       \<and> matchPath_calls (snd (Route_render p2r (Some cx) ps st)) = matchPath_calls st
       \<and> \<not> no_pattern (JStr [])
       \<and> matchPath_calls (snd (matchPath p2r pn (ArgOptions ps) st)) =
           matchPath_calls st @ [(pn, One (JStr []))]
       \<and> (cache_valid p2r st \<longrightarrow>
            fst (matchPath p2r pn (ArgOptions ps) st) =
              match_candidate p2r pn (exact ps) (strict ps) (sensitive ps) []
          \<and> match_candidate p2r pn (exact ps) (strict ps) (sensitive ps) [] =
              (case fst (p2r [] \<lparr>opt_end = exact ps, opt_strict = strict ps,
                                 opt_sensitive = sensitive ps\<rparr>) pn of
                 None \<Rightarrow> Inr None
               | Some (u, vals) \<Rightarrow>
                   (if exact ps \<and> pn \<noteq> u then Inr None
                    else Inr (Some \<lparr>path = [], url = u, isExact = (pn = u),
                           params = build_params (snd (p2r [] \<lparr>opt_end = exact ps,
                             opt_strict = strict ps, opt_sensitive = sensitive ps\<rparr>)) vals\<rparr>))))"
proof -
  have f: "\<not> truthy (props_path ps)"
    using assms(1) by simp
  have r: "\<exists>out. Route_render p2r (Some cx) ps st = (Inr out, st)
            \<and> ctx_match (provided out) = ctx_match cx"
    by (simp add: Route_render_inherit [OF assms(2) f])
  then have r2: "matchPath_calls (snd (Route_render p2r (Some cx) ps st)) = matchPath_calls st"
    by auto
  have own: "[] \<notin> set object_prototype_names"
    by (simp add: object_prototype_names_def)
  let ?st0 = "st\<lparr>matchPath_calls := matchPath_calls st @ [(pn, One (JStr []))]\<rparr>"
  have m: "matchPath p2r pn (ArgOptions ps) st =
      matchPath_step p2r pn (exact ps) (strict ps) (sensitive ps) (Inr None, ?st0) (JStr [])"
    using assms(1) by (simp add: matchPath_def Let_def)
  have calls: "matchPath_calls (snd (matchPath p2r pn (ArgOptions ps) st)) =
           matchPath_calls st @ [(pn, One (JStr []))]"
    unfolding m
    by (simp add: no_pattern_def case_prod_beta Let_def matchPath_calls_compilePath
        split: option.split cache_value.split)
  have res: "fst (matchPath p2r pn (ArgOptions ps) st) =
              match_candidate p2r pn (exact ps) (strict ps) (sensitive ps) []"
    if "cache_valid p2r st"
    using matchPath_uncached_eq [OF that, of pn "ArgOptions ps"] assms(1)
    by (simp add: matchPath_uncached_def uncached_step_def no_pattern_def)
  have mc: "match_candidate p2r pn (exact ps) (strict ps) (sensitive ps) [] =
              (case fst (p2r [] \<lparr>opt_end = exact ps, opt_strict = strict ps,
                                 opt_sensitive = sensitive ps\<rparr>) pn of
                 None \<Rightarrow> Inr None
               | Some (u, vals) \<Rightarrow>
                   (if exact ps \<and> pn \<noteq> u then Inr None
                    else Inr (Some \<lparr>path = [], url = u, isExact = (pn = u),
                           params = build_params (snd (p2r [] \<lparr>opt_end = exact ps,
                             opt_strict = strict ps, opt_sensitive = sensitive ps\<rparr>)) vals\<rparr>)))"
    using own by (simp add: match_candidate_def Let_def split: option.split)
  show ?thesis
    using r r2 calls res mc by (simp add: no_pattern_def)
qed

theorem Route_empty_path_witness:
  "fst (Route_render sample_pathToRegexp
     (Some \<lparr>ctx_location = \<lparr>pathname = ''/x'', search = [], hash = []\<rparr>,
            ctx_match = Some (computeRootMatch ''/x'')\<rparr>)
     \<lparr>props_path = One (JStr []), exact = False, strict = False, sensitive = False,
      props_from = One JUndefined, props_location = None, computedMatch = None,
      children = NoChildren, component = Some ''Page'', render = None\<rparr> initial_state)
   = Inr \<lparr>provided = \<lparr>ctx_location = \<lparr>pathname = ''/x'', search = [], hash = []\<rparr>,
                       ctx_match = Some \<lparr>path = ''/'', url = ''/'', isExact = False,
                         params = Mapping.empty\<rparr>\<rparr>,
          rendered = CreateElement ''Page''
            \<lparr>ctx_location = \<lparr>pathname = ''/x'', search = [], hash = []\<rparr>,
             ctx_match = Some \<lparr>path = ''/'', url = ''/'', isExact = False,
               params = Mapping.empty\<rparr>\<rparr>\<rparr>
   \<and> matchPath_calls (snd (Route_render sample_pathToRegexp
     (Some \<lparr>ctx_location = \<lparr>pathname = ''/x'', search = [], hash = []\<rparr>,
            ctx_match = Some (computeRootMatch ''/x'')\<rparr>)
     \<lparr>props_path = One (JStr []), exact = False, strict = False, sensitive = False,
      props_from = One JUndefined, props_location = None, computedMatch = None,
      children = NoChildren, component = Some ''Page'', render = None\<rparr> initial_state)) = []
   \<and> fst (matchPath sample_pathToRegexp ''/x''
       (ArgOptions \<lparr>props_path = One (JStr []), exact = False, strict = False, sensitive = False,
          props_from = One JUndefined, props_location = None, computedMatch = None,
          children = NoChildren, component = Some ''Page'', render = None\<rparr>) initial_state)
     = Inr (Some \<lparr>path = [], url = [], isExact = False, params = Mapping.empty\<rparr>)"
proof -
  let ?cx = "\<lparr>ctx_location = \<lparr>pathname = ''/x'', search = [], hash = []\<rparr>,
            ctx_match = Some (computeRootMatch ''/x'')\<rparr>"
  let ?ps = "\<lparr>props_path = One (JStr []), exact = False, strict = False, sensitive = False,
      props_from = One JUndefined, props_location = None, computedMatch = None,
      children = NoChildren, component = Some ''Page'', render = None\<rparr>"
  have run: "fst (Route_render sample_pathToRegexp (Some ?cx) ?ps initial_state)
   = Inr \<lparr>provided = \<lparr>ctx_location = \<lparr>pathname = ''/x'', search = [], hash = []\<rparr>,
                       ctx_match = Some \<lparr>path = ''/'', url = ''/'', isExact = False,
                         params = Mapping.empty\<rparr>\<rparr>,
          rendered = CreateElement ''Page''
            \<lparr>ctx_location = \<lparr>pathname = ''/x'', search = [], hash = []\<rparr>,
             ctx_match = Some \<lparr>path = ''/'', url = ''/'', isExact = False,
               params = Mapping.empty\<rparr>\<rparr>\<rparr>"
    by code_simp
  have mp: "fst (matchPath sample_pathToRegexp ''/x'' (ArgOptions ?ps) initial_state)
     = Inr (Some \<lparr>path = [], url = [], isExact = False, params = Mapping.empty\<rparr>)"
    by code_simp
  have z: "matchPath_calls initial_state = []"
    by (simp add: initial_state_def)
  have "matchPath_calls (snd (Route_render sample_pathToRegexp (Some ?cx) ?ps initial_state)) = []"
    using Route_empty_path [where ps = ?ps and p2r = sample_pathToRegexp and cx = ?cx
        and st = initial_state] z
    by simp
  with run mp show ?thesis by simp
qed

section \<open>Route: what is rendered\<close>

text \<open>
  Claim C8 says that a Route with a match invokes exactly one render strategy. A Route
  that matches and has neither \<open>children\<close> nor \<open>component\<close> nor \<open>render\<close> invokes none:
  it renders \<open>null\<close>.
\<close>

theorem Route_render_null_counterexample:
  "fst (Route_render sample_pathToRegexp
     (Some \<lparr>ctx_location = \<lparr>pathname = ''/one'', search = [], hash = []\<rparr>,
            ctx_match = Some (computeRootMatch ''/one'')\<rparr>)
     \<lparr>props_path = One (JStr ''/one''), exact = False, strict = False, sensitive = False,
      props_from = One JUndefined, props_location = None, computedMatch = None,
      children = NoChildren, component = None, render = None\<rparr> initial_state)
   = Inr \<lparr>provided = \<lparr>ctx_location = \<lparr>pathname = ''/one'', search = [], hash = []\<rparr>,
                       ctx_match = Some \<lparr>path = ''/one'', url = ''/one'', isExact = True,
                                          params = Mapping.empty\<rparr>\<rparr>,
          rendered = RenderNull\<rparr>"
  by code_simp

lemma Route_render_shape:
  "Route_render p2r (Some cx) ps st = (Inr out, st') \<Longrightarrow>
     rendered out = select_rendering (provided out)
       (if children ps = EmptyChildrenArray then NoChildren else children ps)
       (component ps) (render ps)"
  by (auto simp: Route_render_def Let_def case_prod_beta split: option.splits sum.splits if_splits)

lemma Route_render_error:
  "Route_render p2r (Some cx) ps st = (Inl e, st') \<Longrightarrow>
     computedMatch ps = None \<and> truthy (props_path ps)
     \<and> matchPath p2r
          (pathname (case props_location ps of Some l \<Rightarrow> l | None \<Rightarrow> ctx_location cx))
          (ArgOptions ps) st = (Inl e, st')"
  by (auto simp: Route_render_def Let_def case_prod_beta prod_eq_iff
      split: option.splits sum.splits if_splits)

text \<open>
  Claim C8, as amended. When the effective match is present, a Route invokes at most one
  render strategy, the first that is supplied in the order children as a function, fixed
  children, \<open>component\<close>, \<open>render\<close>, and it renders \<open>null\<close> when none is supplied (an
  empty children array counts as no children); when the effective match is absent, only
  children given as a function are invoked and everything else renders \<open>null\<close>. This
  holds of every render that returns; a render returns whenever a \<open>computedMatch\<close> is
  supplied or the \<open>path\<close> is falsy, and it throws only what its call of matchPath
  throws.
\<close>

theorem Route_render_strategy:
  "(\<forall>out st'. Route_render p2r (Some cx) ps st = (Inr out, st') \<longrightarrow>
       (ctx_match (provided out) \<noteq> None \<longrightarrow>
          (\<forall>f. children ps = ChildrenFunction f \<longrightarrow> rendered out = CallChildren f (provided out))
        \<and> (\<forall>n. children ps = ChildrenNode n \<longrightarrow> rendered out = FixedChildren (ChildrenNode n))
        \<and> (children ps = NoChildren \<or> children ps = EmptyChildrenArray \<longrightarrow>
              (\<forall>c. component ps = Some c \<longrightarrow> rendered out = CreateElement c (provided out))
            \<and> (component ps = None \<longrightarrow>
                  (\<forall>f. render ps = Some f \<longrightarrow> rendered out = CallRender f (provided out))
                \<and> (render ps = None \<longrightarrow> rendered out = RenderNull))))
     \<and> (ctx_match (provided out) = None \<longrightarrow>
          (\<forall>f. children ps = ChildrenFunction f \<longrightarrow> rendered out = CallChildren f (provided out))
        \<and> ((\<forall>f. children ps \<noteq> ChildrenFunction f) \<longrightarrow> rendered out = RenderNull)))
   \<and> (\<forall>e st'. Route_render p2r (Some cx) ps st = (Inl e, st') \<longrightarrow>
         computedMatch ps = None \<and> truthy (props_path ps)
       \<and> matchPath p2r
            (pathname (case props_location ps of Some l \<Rightarrow> l | None \<Rightarrow> ctx_location cx))
            (ArgOptions ps) st = (Inl e, st'))
   \<and> (\<forall>cm. computedMatch ps = Some cm \<longrightarrow>
         (\<exists>out. Route_render p2r (Some cx) ps st = (Inr out, st)))
   \<and> (computedMatch ps = None \<and> \<not> truthy (props_path ps) \<longrightarrow>
         (\<exists>out. Route_render p2r (Some cx) ps st = (Inr out, st)))"
proof (intro conjI allI impI)
  fix out st'
  assume r: "Route_render p2r (Some cx) ps st = (Inr out, st')"
  note s = Route_render_shape [OF r]
  show "ctx_match (provided out) \<noteq> None \<Longrightarrow> children ps = ChildrenFunction f \<Longrightarrow>
          rendered out = CallChildren f (provided out)" for f
    by (simp add: s select_rendering_def)
  show "ctx_match (provided out) \<noteq> None \<Longrightarrow> children ps = ChildrenNode n \<Longrightarrow>
          rendered out = FixedChildren (ChildrenNode n)" for n
    by (simp add: s select_rendering_def)
  show "ctx_match (provided out) \<noteq> None \<Longrightarrow>
          children ps = NoChildren \<or> children ps = EmptyChildrenArray \<Longrightarrow>
          component ps = Some c \<Longrightarrow> rendered out = CreateElement c (provided out)" for c
    by (auto simp: s select_rendering_def)
  show "ctx_match (provided out) \<noteq> None \<Longrightarrow>
          children ps = NoChildren \<or> children ps = EmptyChildrenArray \<Longrightarrow>
          component ps = None \<Longrightarrow> render ps = Some f \<Longrightarrow>
          rendered out = CallRender f (provided out)" for f
    by (auto simp: s select_rendering_def)
  show "ctx_match (provided out) \<noteq> None \<Longrightarrow>
          children ps = NoChildren \<or> children ps = EmptyChildrenArray \<Longrightarrow>
          component ps = None \<Longrightarrow> render ps = None \<Longrightarrow> rendered out = RenderNull"
    by (auto simp: s select_rendering_def)
  show "ctx_match (provided out) = None \<Longrightarrow> children ps = ChildrenFunction f \<Longrightarrow>
          rendered out = CallChildren f (provided out)" for f
    by (simp add: s select_rendering_def)
  show "ctx_match (provided out) = None \<Longrightarrow> \<forall>f. children ps \<noteq> ChildrenFunction f \<Longrightarrow>
          rendered out = RenderNull"
    by (cases "children ps") (simp_all add: s select_rendering_def)
next
  fix e st'
  assume r: "Route_render p2r (Some cx) ps st = (Inl e, st')"
  from Route_render_error [OF r]
  show "computedMatch ps = None" and "truthy (props_path ps)"
    and "matchPath p2r
            (pathname (case props_location ps of Some l \<Rightarrow> l | None \<Rightarrow> ctx_location cx))
            (ArgOptions ps) st = (Inl e, st')"
    by simp_all
next
  fix cm assume "computedMatch ps = Some cm"
  then show "\<exists>out. Route_render p2r (Some cx) ps st = (Inr out, st)"
    by (simp add: Route_render_computed)
next
  assume "computedMatch ps = None \<and> \<not> truthy (props_path ps)"
  then show "\<exists>out. Route_render p2r (Some cx) ps st = (Inr out, st)"
    by (simp add: Route_render_inherit)
qed

theorem Route_render_strategy_witness:
  "fst (Route_render sample_pathToRegexp
     (Some \<lparr>ctx_location = \<lparr>pathname = ''/one'', search = [], hash = []\<rparr>,
            ctx_match = Some (computeRootMatch ''/one'')\<rparr>)
     \<lparr>props_path = One (JStr ''/one''), exact = False, strict = False, sensitive = False,
      props_from = One JUndefined, props_location = None, computedMatch = None,
      children = ChildrenFunction ''f'', component = Some ''Page'', render = Some ''g''\<rparr>
     initial_state)
   = Inr \<lparr>provided = \<lparr>ctx_location = \<lparr>pathname = ''/one'', search = [], hash = []\<rparr>,
                       ctx_match = Some \<lparr>path = ''/one'', url = ''/one'', isExact = True,
                                          params = Mapping.empty\<rparr>\<rparr>,
          rendered = CallChildren ''f''
            \<lparr>ctx_location = \<lparr>pathname = ''/one'', search = [], hash = []\<rparr>,
             ctx_match = Some \<lparr>path = ''/one'', url = ''/one'', isExact = True,
                                params = Mapping.empty\<rparr>\<rparr>\<rparr>
   \<and> fst (Route_render sample_pathToRegexp
     (Some \<lparr>ctx_location = \<lparr>pathname = ''/two'', search = [], hash = []\<rparr>,
            ctx_match = Some (computeRootMatch ''/two'')\<rparr>)
     \<lparr>props_path = One (JStr ''/one''), exact = False, strict = False, sensitive = False,
      props_from = One JUndefined, props_location = None, computedMatch = None,
      children = ChildrenNode ''n'', component = Some ''Page'', render = Some ''g''\<rparr>
     initial_state)
   = Inr \<lparr>provided = \<lparr>ctx_location = \<lparr>pathname = ''/two'', search = [], hash = []\<rparr>,
                       ctx_match = None\<rparr>,
          rendered = RenderNull\<rparr>"
proof -
  let ?cx = "\<lparr>ctx_location = \<lparr>pathname = ''/two'', search = [], hash = []\<rparr>,
            ctx_match = Some (computeRootMatch ''/two'')\<rparr>"
  let ?ps = "\<lparr>props_path = One (JStr ''/one''), exact = False, strict = False, sensitive = False,
      props_from = One JUndefined, props_location = None, computedMatch = None,
      children = ChildrenNode ''n'', component = Some ''Page'', render = Some ''g''\<rparr>"
  have 1: "fst (Route_render sample_pathToRegexp
     (Some \<lparr>ctx_location = \<lparr>pathname = ''/one'', search = [], hash = []\<rparr>,
            ctx_match = Some (computeRootMatch ''/one'')\<rparr>)
     \<lparr>props_path = One (JStr ''/one''), exact = False, strict = False, sensitive = False,
      props_from = One JUndefined, props_location = None, computedMatch = None,
      children = ChildrenFunction ''f'', component = Some ''Page'', render = Some ''g''\<rparr>
     initial_state)
   = Inr \<lparr>provided = \<lparr>ctx_location = \<lparr>pathname = ''/one'', search = [], hash = []\<rparr>,
                       ctx_match = Some \<lparr>path = ''/one'', url = ''/one'', isExact = True,
                                          params = Mapping.empty\<rparr>\<rparr>,
          rendered = CallChildren ''f''
            \<lparr>ctx_location = \<lparr>pathname = ''/one'', search = [], hash = []\<rparr>,
             ctx_match = Some \<lparr>path = ''/one'', url = ''/one'', isExact = True,
                                params = Mapping.empty\<rparr>\<rparr>\<rparr>"
    by code_simp
  have p: "map_sum id provided (fst (Route_render sample_pathToRegexp (Some ?cx) ?ps initial_state))
      = Inr \<lparr>ctx_location = \<lparr>pathname = ''/two'', search = [], hash = []\<rparr>, ctx_match = None\<rparr>"
    by code_simp
  obtain r st' where rs: "Route_render sample_pathToRegexp (Some ?cx) ?ps initial_state = (r, st')"
    by force
  with p obtain out where out: "r = Inr out"
    and pr: "provided out = \<lparr>ctx_location = \<lparr>pathname = ''/two'', search = [], hash = []\<rparr>,
                              ctx_match = None\<rparr>"
    by (cases r) auto
  from Route_render_strategy [of sample_pathToRegexp ?cx ?ps initial_state,
      THEN conjunct1, THEN spec, THEN spec, THEN mp, OF rs [unfolded out], THEN conjunct2]
  have "rendered out = RenderNull"
    using pr by simp
  with pr have "out = \<lparr>provided = \<lparr>ctx_location = \<lparr>pathname = ''/two'', search = [], hash = []\<rparr>,
                              ctx_match = None\<rparr>, rendered = RenderNull\<rparr>"
    by (cases out) simp
  with rs out 1 show ?thesis by simp
qed

section \<open>Switch: the first child that matches\<close>

lemma Switch_forEach_done:
  "Switch_forEach p2r cx loc (Inr (e, Some m), st) c = (Inr (e, Some m), st)"
  "Switch_forEach p2r cx loc (Inl err, st) c = (Inl err, st)"
  by simp_all

lemma Switch_fold_matched:
  "foldl (Switch_forEach p2r cx loc) (Inr (e, Some m), st) cs = (Inr (e, Some m), st)"
  by (induction cs) simp_all

lemma Switch_fold_error:
  "foldl (Switch_forEach p2r cx loc) (Inl err, st) cs = (Inl err, st)"
  by (induction cs) simp_all

lemma Switch_forEach_unmatched:
  assumes "cache_valid p2r st"
  shows "\<exists>st'. Switch_forEach p2r cx loc (Inr (e, None), st) c =
           (case child_match p2r cx loc c of
              Inl err \<Rightarrow> Inl err
            | Inr m \<Rightarrow> Inr (if isValidElement c then Some c else e, m), st')
         \<and> cache_valid p2r st'
         \<and> matchPath_calls st' = matchPath_calls st @ child_calls loc c"
proof (cases c)
  case NotElement
  with assms show ?thesis by (simp add: child_match_def child_calls_def)
next
  case (Element ps)
  let ?p = "js_or (props_path ps) (props_from ps)"
  show ?thesis
  proof (cases "truthy ?p")
    case True
    from matchPath_uncached_eq [OF assms, of "pathname loc" "ArgOptions (ps\<lparr>props_path := ?p\<rparr>)"]
    show ?thesis
      using True Element
      by (simp add: child_match_def child_calls_def Let_def case_prod_beta prod_eq_iff
          split: sum.split)
  next
    case False
    with assms Element show ?thesis
      by (simp add: child_match_def child_calls_def Let_def)
  qed
qed

lemma Switch_fold_unmatched:
  "cache_valid p2r st \<Longrightarrow> \<forall>x \<in> set pre. child_match p2r cx loc x = Inr None \<Longrightarrow>
     \<exists>e' st'. foldl (Switch_forEach p2r cx loc) (Inr (e, None), st) pre = (Inr (e', None), st')
       \<and> cache_valid p2r st'
       \<and> matchPath_calls st' = matchPath_calls st @ concat (map (child_calls loc) pre)"
proof (induction pre arbitrary: e st)
  case Nil
  then show ?case by simp
next
  case (Cons c cs)
  from Switch_forEach_unmatched [OF Cons.prems(1), of cx loc e c] Cons.prems(2)
  obtain e1 st1 where
    s: "Switch_forEach p2r cx loc (Inr (e, None), st) c = (Inr (e1, None), st1)"
    and v: "cache_valid p2r st1"
    and l: "matchPath_calls st1 = matchPath_calls st @ child_calls loc c"
    by auto
  from Cons.IH [OF v, of e1] Cons.prems(2)
  obtain e' st' where
    "foldl (Switch_forEach p2r cx loc) (Inr (e1, None), st1) cs = (Inr (e', None), st')"
    "cache_valid p2r st'"
    "matchPath_calls st' = matchPath_calls st1 @ concat (map (child_calls loc) cs)"
    by auto
  with s l show ?case by simp
qed

lemma child_match_valid: "child_match p2r cx loc c = Inr (Some m) \<Longrightarrow> isValidElement c"
  by (cases c) (simp_all add: child_match_def)

lemma Switch_render_found:
  assumes "cache_valid p2r st"
    and "loc = (case swl of Some l \<Rightarrow> l | None \<Rightarrow> ctx_location cx)"
    and "\<forall>x \<in> set pre. child_match p2r cx loc x = Inr None"
    and "child_match p2r cx loc c = Inr (Some m)"
  shows "fst (Switch_render p2r (Some cx) swl (pre @ c # post) st) = Inr (Some (cloneElement c loc m))
       \<and> matchPath_calls (snd (Switch_render p2r (Some cx) swl (pre @ c # post) st)) =
           matchPath_calls st @ concat (map (child_calls loc) (pre @ [c]))"
proof -
  from Switch_fold_unmatched [OF assms(1,3), of None]
  obtain e1 st1 where
    f1: "foldl (Switch_forEach p2r cx loc) (Inr (None, None), st) pre = (Inr (e1, None), st1)"
    and v1: "cache_valid p2r st1"
    and l1: "matchPath_calls st1 = matchPath_calls st @ concat (map (child_calls loc) pre)"
    by blast
  from Switch_forEach_unmatched [OF v1, of cx loc e1 c] assms(4) child_match_valid [OF assms(4)]
  obtain st2 where
    f2: "Switch_forEach p2r cx loc (Inr (e1, None), st1) c = (Inr (Some c, Some m), st2)"
    and l2: "matchPath_calls st2 = matchPath_calls st1 @ child_calls loc c"
    by auto
  have "foldl (Switch_forEach p2r cx loc) (Inr (None, None), st) (pre @ c # post) =
          (Inr (Some c, Some m), st2)"
    using f1 f2 by (simp add: Switch_fold_matched)
  then have "Switch_render p2r (Some cx) swl (pre @ c # post) st =
               (Inr (Some (cloneElement c loc m)), st2)"
    using assms(2) by (simp add: Switch_render_def)
  with l1 l2 show ?thesis by simp
qed

lemma Switch_render_throws:
  assumes "cache_valid p2r st"
    and "loc = (case swl of Some l \<Rightarrow> l | None \<Rightarrow> ctx_location cx)"
    and "\<forall>x \<in> set pre. child_match p2r cx loc x = Inr None"
    and "child_match p2r cx loc c = Inl err"
  shows "fst (Switch_render p2r (Some cx) swl (pre @ c # post) st) = Inl err
       \<and> matchPath_calls (snd (Switch_render p2r (Some cx) swl (pre @ c # post) st)) =
           matchPath_calls st @ concat (map (child_calls loc) (pre @ [c]))"
proof -
  from Switch_fold_unmatched [OF assms(1,3), of None]
  obtain e1 st1 where
    f1: "foldl (Switch_forEach p2r cx loc) (Inr (None, None), st) pre = (Inr (e1, None), st1)"
    and v1: "cache_valid p2r st1"
    and l1: "matchPath_calls st1 = matchPath_calls st @ concat (map (child_calls loc) pre)"
    by blast
  from Switch_forEach_unmatched [OF v1, of cx loc e1 c] assms(4)
  obtain st2 where
    f2: "Switch_forEach p2r cx loc (Inr (e1, None), st1) c = (Inl err, st2)"
    and l2: "matchPath_calls st2 = matchPath_calls st1 @ child_calls loc c"
    by auto
  have "foldl (Switch_forEach p2r cx loc) (Inr (None, None), st) (pre @ c # post) = (Inl err, st2)"
    using f1 f2 by (simp add: Switch_fold_error)
  then have "Switch_render p2r (Some cx) swl (pre @ c # post) st = (Inl err, st2)"
    using assms(2) by (simp add: Switch_render_def)
  with l1 l2 show ?thesis by simp
qed

lemma Switch_render_none:
  assumes "cache_valid p2r st"
    and "loc = (case swl of Some l \<Rightarrow> l | None \<Rightarrow> ctx_location cx)"
    and "\<forall>x \<in> set chs. child_match p2r cx loc x = Inr None"
  shows "fst (Switch_render p2r (Some cx) swl chs st) = Inr None
       \<and> matchPath_calls (snd (Switch_render p2r (Some cx) swl chs st)) =
           matchPath_calls st @ concat (map (child_calls loc) chs)"
proof -
  from Switch_fold_unmatched [OF assms(1,3), of None]
  obtain e1 st1 where
    "foldl (Switch_forEach p2r cx loc) (Inr (None, None), st) chs = (Inr (e1, None), st1)"
    "matchPath_calls st1 = matchPath_calls st @ concat (map (child_calls loc) chs)"
    by blast
  then show ?thesis
    using assms(2) by (simp add: Switch_render_def)
qed

lemma Route_uses_computedMatch:
  "computedMatch ps = Some m \<Longrightarrow> props_location ps = Some loc \<Longrightarrow>
     \<exists>out. Route_render p2r (Some cx') ps s = (Inr out, s)
       \<and> ctx_match (provided out) = Some m \<and> ctx_location (provided out) = loc"
  by (simp add: Route_render_def Let_def)

lemma child_match_path:
  assumes "cache_valid p2r st" and "spec_pattern_present (props_path ps)"
  shows "child_match p2r cx loc (Element ps) =
           fst (matchPath p2r (pathname loc) (ArgOptions ps) st)
       \<and> child_calls loc (Element ps) = [(pathname loc, props_path ps)]"
  using matchPath_uncached_eq [OF assms(1), of "pathname loc" "ArgOptions ps"] assms(2)
  by (simp add: child_match_def child_calls_def js_or_def Let_def truthy_spec_pattern_present)

lemma child_match_from:
  assumes "cache_valid p2r st" and "\<not> spec_pattern_present (props_path ps)"
    and "spec_pattern_present (props_from ps)"
  shows "child_match p2r cx loc (Element ps) =
           fst (matchPath p2r (pathname loc) (ArgOptions (ps\<lparr>props_path := props_from ps\<rparr>)) st)
       \<and> child_calls loc (Element ps) = [(pathname loc, props_from ps)]"
  using matchPath_uncached_eq [OF assms(1), of "pathname loc"
      "ArgOptions (ps\<lparr>props_path := props_from ps\<rparr>)"] assms(2,3)
  by (simp add: child_match_def child_calls_def js_or_def Let_def truthy_spec_pattern_present)

lemma child_match_inherit:
  assumes "\<not> spec_pattern_present (props_path ps)" and "\<not> spec_pattern_present (props_from ps)"
  shows "child_match p2r cx loc (Element ps) = Inr (ctx_match cx)
       \<and> child_calls loc (Element ps) = []"
  using assms
  by (simp add: child_match_def child_calls_def js_or_def Let_def truthy_spec_pattern_present)

text \<open>
  Claim C6. What the Switch computes for a child is \<open>child_match\<close>: no match for a child
  that is not a valid element; for an element whose \<open>path\<close> is present (a non-empty
  string or an array), the outcome of matchPath on the pathname of the location with the
  element's props; for an element whose \<open>path\<close> is absent or empty and whose \<open>from\<close> is
  present, the outcome of matchPath with \<open>from\<close> as the pattern; and for an element
  without a pattern the inherited context match, so that such a child counts as matching
  whenever the context has a match (directly below a Router it always has). For every
  list of children and every location: if the children are \<open>pre @ c # post\<close>, no child
  of \<open>pre\<close> has a match and \<open>c\<close> has the match \<open>m\<close>, then \<open>c\<close> is a valid element, the
  Switch returns exactly \<open>c\<close> cloned with the location and \<open>computedMatch = m\<close>, the
  calls of matchPath it made are those of the pattern-bearing elements of \<open>pre\<close> and of
  \<open>c\<close>, in order, and none for \<open>post\<close>; and the Route that receives the clone provides
  \<open>m\<close> and leaves the module state untouched, so it does not call matchPath again. If no
  child has a match the Switch returns \<open>null\<close>. If matchPath throws for \<open>c\<close> before any
  child has matched, the Switch throws the same error, again without a call for \<open>post\<close>.
\<close>

theorem Switch_first_match:
  assumes "cache_valid p2r st"
    and "loc = (case swl of Some l \<Rightarrow> l | None \<Rightarrow> ctx_location cx)"
  shows "(\<forall>pre c post m.
            chs = pre @ c # post
            \<and> (\<forall>x \<in> set pre. child_match p2r cx loc x = Inr None)
            \<and> child_match p2r cx loc c = Inr (Some m) \<longrightarrow>
              isValidElement c
            \<and> fst (Switch_render p2r (Some cx) swl chs st) = Inr (Some (cloneElement c loc m))
            \<and> matchPath_calls (snd (Switch_render p2r (Some cx) swl chs st)) =
                matchPath_calls st @ concat (map (child_calls loc) (pre @ [c]))
            \<and> (\<forall>ps cx' s. cloneElement c loc m = Element ps \<longrightarrow>
                  (\<exists>out. Route_render p2r (Some cx') ps s = (Inr out, s)
                     \<and> ctx_match (provided out) = Some m
                     \<and> ctx_location (provided out) = loc)))
       \<and> ((\<forall>x \<in> set chs. child_match p2r cx loc x = Inr None) \<longrightarrow>
            fst (Switch_render p2r (Some cx) swl chs st) = Inr None
          \<and> matchPath_calls (snd (Switch_render p2r (Some cx) swl chs st)) =
              matchPath_calls st @ concat (map (child_calls loc) chs))
       \<and> (\<forall>pre c post err.
            chs = pre @ c # post
            \<and> (\<forall>x \<in> set pre. child_match p2r cx loc x = Inr None)
            \<and> child_match p2r cx loc c = Inl err \<longrightarrow>
              fst (Switch_render p2r (Some cx) swl chs st) = Inl err
            \<and> matchPath_calls (snd (Switch_render p2r (Some cx) swl chs st)) =
                matchPath_calls st @ concat (map (child_calls loc) (pre @ [c])))
       \<and> child_match p2r cx loc NotElement = Inr None
       \<and> child_calls loc NotElement = []
       \<and> (\<forall>ps. spec_pattern_present (props_path ps) \<longrightarrow>
            child_match p2r cx loc (Element ps) =
              fst (matchPath p2r (pathname loc) (ArgOptions ps) st)
          \<and> child_calls loc (Element ps) = [(pathname loc, props_path ps)])
       \<and> (\<forall>ps. \<not> spec_pattern_present (props_path ps) \<and> spec_pattern_present (props_from ps) \<longrightarrow>
            child_match p2r cx loc (Element ps) =
              fst (matchPath p2r (pathname loc)
                (ArgOptions (ps\<lparr>props_path := props_from ps\<rparr>)) st)
          \<and> child_calls loc (Element ps) = [(pathname loc, props_from ps)])
       \<and> (\<forall>ps. \<not> spec_pattern_present (props_path ps) \<and> \<not> spec_pattern_present (props_from ps) \<longrightarrow>
            child_match p2r cx loc (Element ps) = Inr (ctx_match cx)
          \<and> child_calls loc (Element ps) = [])"
proof -
  have 1: "isValidElement c
            \<and> fst (Switch_render p2r (Some cx) swl chs st) = Inr (Some (cloneElement c loc m))
            \<and> matchPath_calls (snd (Switch_render p2r (Some cx) swl chs st)) =
                matchPath_calls st @ concat (map (child_calls loc) (pre @ [c]))
            \<and> (\<forall>ps cx' s. cloneElement c loc m = Element ps \<longrightarrow>
                  (\<exists>out. Route_render p2r (Some cx') ps s = (Inr out, s)
                     \<and> ctx_match (provided out) = Some m
                     \<and> ctx_location (provided out) = loc))"
    if a: "chs = pre @ c # post
            \<and> (\<forall>x \<in> set pre. child_match p2r cx loc x = Inr None)
            \<and> child_match p2r cx loc c = Inr (Some m)" for pre c post m
  proof -
    from a have chs: "chs = pre @ c # post"
      and pre: "\<forall>x \<in> set pre. child_match p2r cx loc x = Inr None"
      and c: "child_match p2r cx loc c = Inr (Some m)"
      by simp_all
    have v: "isValidElement c" using c by (rule child_match_valid)
    have route: "\<exists>out. Route_render p2r (Some cx') ps s = (Inr out, s)
                     \<and> ctx_match (provided out) = Some m
                     \<and> ctx_location (provided out) = loc"
      if "cloneElement c loc m = Element ps" for ps cx' s
    proof -
      from that have "computedMatch ps = Some m" "props_location ps = Some loc"
        by (cases c; auto)+
      then show ?thesis by (rule Route_uses_computedMatch)
    qed
    from Switch_render_found [OF assms pre c, of post] v route show ?thesis
      unfolding chs by blast
  qed
  have 2: "fst (Switch_render p2r (Some cx) swl chs st) = Inr None
          \<and> matchPath_calls (snd (Switch_render p2r (Some cx) swl chs st)) =
              matchPath_calls st @ concat (map (child_calls loc) chs)"
    if "\<forall>x \<in> set chs. child_match p2r cx loc x = Inr None"
    using Switch_render_none [OF assms that] .
  have 3: "fst (Switch_render p2r (Some cx) swl chs st) = Inl err
            \<and> matchPath_calls (snd (Switch_render p2r (Some cx) swl chs st)) =
                matchPath_calls st @ concat (map (child_calls loc) (pre @ [c]))"
    if a: "chs = pre @ c # post
            \<and> (\<forall>x \<in> set pre. child_match p2r cx loc x = Inr None)
            \<and> child_match p2r cx loc c = Inl err" for pre c post err
  proof -
    from a have chs: "chs = pre @ c # post"
      and pre: "\<forall>x \<in> set pre. child_match p2r cx loc x = Inr None"
      and c: "child_match p2r cx loc c = Inl err"
      by simp_all
    from Switch_render_throws [OF assms pre c, of post] show ?thesis
      unfolding chs .
  qed
  have 4: "child_match p2r cx loc NotElement = Inr None" "child_calls loc NotElement = []"
    by (simp_all add: child_match_def child_calls_def)
  have 5: "child_match p2r cx loc (Element ps) =
              fst (matchPath p2r (pathname loc) (ArgOptions ps) st)
          \<and> child_calls loc (Element ps) = [(pathname loc, props_path ps)]"
    if "spec_pattern_present (props_path ps)" for ps
    using child_match_path [OF assms(1) that] .
  have 6: "child_match p2r cx loc (Element ps) =
              fst (matchPath p2r (pathname loc)
                (ArgOptions (ps\<lparr>props_path := props_from ps\<rparr>)) st)
          \<and> child_calls loc (Element ps) = [(pathname loc, props_from ps)]"
    if "\<not> spec_pattern_present (props_path ps) \<and> spec_pattern_present (props_from ps)" for ps
    using child_match_from [OF assms(1), of ps cx loc] that by blast
  have 7: "child_match p2r cx loc (Element ps) = Inr (ctx_match cx)
          \<and> child_calls loc (Element ps) = []"
    if "\<not> spec_pattern_present (props_path ps) \<and> \<not> spec_pattern_present (props_from ps)" for ps
    using child_match_inherit [of ps p2r cx loc] that by blast
  from 1 have A: "\<forall>pre c post m.
            chs = pre @ c # post
            \<and> (\<forall>x \<in> set pre. child_match p2r cx loc x = Inr None)
            \<and> child_match p2r cx loc c = Inr (Some m) \<longrightarrow>
              isValidElement c
            \<and> fst (Switch_render p2r (Some cx) swl chs st) = Inr (Some (cloneElement c loc m))
            \<and> matchPath_calls (snd (Switch_render p2r (Some cx) swl chs st)) =
                matchPath_calls st @ concat (map (child_calls loc) (pre @ [c]))
            \<and> (\<forall>ps cx' s. cloneElement c loc m = Element ps \<longrightarrow>
                  (\<exists>out. Route_render p2r (Some cx') ps s = (Inr out, s)
                     \<and> ctx_match (provided out) = Some m
                     \<and> ctx_location (provided out) = loc))"
    by (intro allI impI)
  from 2 have B: "(\<forall>x \<in> set chs. child_match p2r cx loc x = Inr None) \<longrightarrow>
            fst (Switch_render p2r (Some cx) swl chs st) = Inr None
          \<and> matchPath_calls (snd (Switch_render p2r (Some cx) swl chs st)) =
              matchPath_calls st @ concat (map (child_calls loc) chs)"
    by (intro impI)
  from 3 have C: "\<forall>pre c post err.
            chs = pre @ c # post
            \<and> (\<forall>x \<in> set pre. child_match p2r cx loc x = Inr None)
            \<and> child_match p2r cx loc c = Inl err \<longrightarrow>
              fst (Switch_render p2r (Some cx) swl chs st) = Inl err
            \<and> matchPath_calls (snd (Switch_render p2r (Some cx) swl chs st)) =
                matchPath_calls st @ concat (map (child_calls loc) (pre @ [c]))"
    by (intro allI impI)
  from 5 have E: "\<forall>ps. spec_pattern_present (props_path ps) \<longrightarrow>
            child_match p2r cx loc (Element ps) =
              fst (matchPath p2r (pathname loc) (ArgOptions ps) st)
          \<and> child_calls loc (Element ps) = [(pathname loc, props_path ps)]"
    by (intro allI impI)
  from 6 have F: "\<forall>ps. \<not> spec_pattern_present (props_path ps) \<and> spec_pattern_present (props_from ps) \<longrightarrow>
            child_match p2r cx loc (Element ps) =
              fst (matchPath p2r (pathname loc)
                (ArgOptions (ps\<lparr>props_path := props_from ps\<rparr>)) st)
          \<and> child_calls loc (Element ps) = [(pathname loc, props_from ps)]"
    by (intro allI impI)
  from 7 have G: "\<forall>ps. \<not> spec_pattern_present (props_path ps) \<and> \<not> spec_pattern_present (props_from ps) \<longrightarrow>
            child_match p2r cx loc (Element ps) = Inr (ctx_match cx)
          \<and> child_calls loc (Element ps) = []"
    by (intro allI impI)
  show ?thesis
    by (rule conjI [OF A conjI [OF B conjI [OF C conjI [OF 4(1) conjI [OF 4(2)
        conjI [OF E conjI [OF F G]]]]]]])
qed


theorem Switch_first_match_witness:
  "fst (Switch_render sample_pathToRegexp
     (Some \<lparr>ctx_location = \<lparr>pathname = ''/x/42'', search = [], hash = []\<rparr>,
            ctx_match = Some (computeRootMatch ''/x/42'')\<rparr>)
     None
     [Element \<lparr>props_path = One JUndefined, exact = False, strict = False, sensitive = False,
        props_from = One (JStr ''/old''), props_location = None, computedMatch = None,
        children = NoChildren, component = Some ''Redirect'', render = None\<rparr>,
      Element \<lparr>props_path = One (JStr ''/x''), exact = True, strict = False, sensitive = False,
        props_from = One JUndefined, props_location = None, computedMatch = None,
        children = NoChildren, component = Some ''List'', render = None\<rparr>,
      NotElement,
      Element \<lparr>props_path = One (JStr []), exact = False, strict = False, sensitive = False,
        props_from = One (JStr ''/x/:id''), props_location = None, computedMatch = None,
        children = NoChildren, component = Some ''Item'', render = None\<rparr>,
      Element \<lparr>props_path = One JUndefined, exact = False, strict = False, sensitive = False,
        props_from = One JUndefined, props_location = None, computedMatch = None,
        children = NoChildren, component = Some ''NotFound'', render = None\<rparr>]
     initial_state)
   = Inr (Some (Element \<lparr>props_path = One (JStr []), exact = False, strict = False,
        sensitive = False, props_from = One (JStr ''/x/:id''),
        props_location = Some \<lparr>pathname = ''/x/42'', search = [], hash = []\<rparr>,
        computedMatch = Some \<lparr>path = ''/x/:id'', url = ''/x/42'', isExact = True,
          params = Mapping.update ''id'' (Some ''42'') Mapping.empty\<rparr>,
        children = NoChildren, component = Some ''Item'', render = None\<rparr>))
   \<and> matchPath_calls (snd (Switch_render sample_pathToRegexp
     (Some \<lparr>ctx_location = \<lparr>pathname = ''/x/42'', search = [], hash = []\<rparr>,
            ctx_match = Some (computeRootMatch ''/x/42'')\<rparr>)
     None
     [Element \<lparr>props_path = One JUndefined, exact = False, strict = False, sensitive = False,
        props_from = One (JStr ''/old''), props_location = None, computedMatch = None,
        children = NoChildren, component = Some ''Redirect'', render = None\<rparr>,
      Element \<lparr>props_path = One (JStr ''/x''), exact = True, strict = False, sensitive = False,
        props_from = One JUndefined, props_location = None, computedMatch = None,
        children = NoChildren, component = Some ''List'', render = None\<rparr>,
      NotElement,
      Element \<lparr>props_path = One (JStr []), exact = False, strict = False, sensitive = False,
        props_from = One (JStr ''/x/:id''), props_location = None, computedMatch = None,
        children = NoChildren, component = Some ''Item'', render = None\<rparr>,
      Element \<lparr>props_path = One JUndefined, exact = False, strict = False, sensitive = False,
        props_from = One JUndefined, props_location = None, computedMatch = None,
        children = NoChildren, component = Some ''NotFound'', render = None\<rparr>]
     initial_state))
   = [(''/x/42'', One (JStr ''/old'')), (''/x/42'', One (JStr ''/x'')),
      (''/x/42'', One (JStr ''/x/:id''))]
   \<and> fst (Switch_render sample_pathToRegexp
     (Some \<lparr>ctx_location = \<lparr>pathname = ''/x/42'', search = [], hash = []\<rparr>,
            ctx_match = Some (computeRootMatch ''/x/42'')\<rparr>)
     None
     [Element \<lparr>props_path = One (JStr ''/x''), exact = True, strict = False, sensitive = False,
        props_from = One JUndefined, props_location = None, computedMatch = None,
        children = NoChildren, component = Some ''List'', render = None\<rparr>,
      Element \<lparr>props_path = One JUndefined, exact = False, strict = False, sensitive = False,
        props_from = One JUndefined, props_location = None, computedMatch = None,
        children = NoChildren, component = Some ''NotFound'', render = None\<rparr>,
      Element \<lparr>props_path = One (JStr []), exact = False, strict = False, sensitive = False,
        props_from = One (JStr ''/x/:id''), props_location = None, computedMatch = None,
        children = NoChildren, component = Some ''Item'', render = None\<rparr>]
     initial_state)
   = Inr (Some (Element \<lparr>props_path = One JUndefined, exact = False, strict = False,
        sensitive = False, props_from = One JUndefined,
        props_location = Some \<lparr>pathname = ''/x/42'', search = [], hash = []\<rparr>,
        computedMatch = Some \<lparr>path = ''/'', url = ''/'', isExact = False,
          params = Mapping.empty\<rparr>,
        children = NoChildren, component = Some ''NotFound'', render = None\<rparr>))
   \<and> fst (Switch_render sample_pathToRegexp
     (Some \<lparr>ctx_location = \<lparr>pathname = ''/x/42'', search = [], hash = []\<rparr>,
            ctx_match = Some (computeRootMatch ''/x/42'')\<rparr>)
     None
     [Element \<lparr>props_path = One (JStr ''constructor''), exact = False, strict = False, sensitive = False,
        props_from = One JUndefined, props_location = None, computedMatch = None,
        children = NoChildren, component = Some ''Broken'', render = None\<rparr>,
      Element \<lparr>props_path = One (JStr []), exact = False, strict = False, sensitive = False,
        props_from = One (JStr ''/x/:id''), props_location = None, computedMatch = None,
        children = NoChildren, component = Some ''Item'', render = None\<rparr>]
     initial_state)
   = Inl (TypeError ''Cannot read property exec of undefined'')"
proof -
  let ?loc = "\<lparr>pathname = ''/x/42'', search = [], hash = []\<rparr>"
  let ?cx = "\<lparr>ctx_location = ?loc, ctx_match = Some (computeRootMatch ''/x/42'')\<rparr>"
  let ?R = "\<lparr>props_path = One JUndefined, exact = False, strict = False, sensitive = False,
        props_from = One (JStr ''/old''), props_location = None, computedMatch = None,
        children = NoChildren, component = Some ''Redirect'', render = None\<rparr>"
  let ?P1 = "\<lparr>props_path = One (JStr ''/x''), exact = True, strict = False, sensitive = False,
        props_from = One JUndefined, props_location = None, computedMatch = None,
        children = NoChildren, component = Some ''List'', render = None\<rparr>"
  let ?P2 = "\<lparr>props_path = One (JStr []), exact = False, strict = False, sensitive = False,
        props_from = One (JStr ''/x/:id''), props_location = None, computedMatch = None,
        children = NoChildren, component = Some ''Item'', render = None\<rparr>"
  let ?P3 = "\<lparr>props_path = One JUndefined, exact = False, strict = False, sensitive = False,
        props_from = One JUndefined, props_location = None, computedMatch = None,
        children = NoChildren, component = Some ''NotFound'', render = None\<rparr>"
  let ?m = "\<lparr>path = ''/x/:id'', url = ''/x/42'', isExact = True,
      params = Mapping.update ''id'' (Some ''42'') Mapping.empty\<rparr>"
  have p0: "child_match sample_pathToRegexp ?cx ?loc (Element ?R) = Inr None"
    by code_simp
  have p1: "child_match sample_pathToRegexp ?cx ?loc (Element ?P1) = Inr None"
    by code_simp
  have p2: "child_match sample_pathToRegexp ?cx ?loc NotElement = Inr None"
    by (simp add: child_match_def)
  have c: "child_match sample_pathToRegexp ?cx ?loc (Element ?P2) = Inr (Some ?m)"
    by code_simp
  have pre: "\<forall>x \<in> set [Element ?R, Element ?P1, NotElement].
      child_match sample_pathToRegexp ?cx ?loc x = Inr None"
    using p0 p1 p2 by simp
  have loc: "?loc = (case None of Some l \<Rightarrow> l | None \<Rightarrow> ctx_location ?cx)"
    by simp
  note t = Switch_first_match [OF cache_valid_initial loc, where p2r = sample_pathToRegexp
      and chs = "[Element ?R, Element ?P1, NotElement] @ Element ?P2 # [Element ?P3]",
      THEN conjunct1, THEN spec, THEN spec, THEN spec, THEN spec, THEN mp,
      OF conjI [OF refl conjI [OF pre c]]]
  have calls: "concat (map (child_calls ?loc) ([Element ?R, Element ?P1, NotElement] @ [Element ?P2])) =
      [(''/x/42'', One (JStr ''/old'')), (''/x/42'', One (JStr ''/x'')),
       (''/x/42'', One (JStr ''/x/:id''))]"
    by (simp add: child_calls_def js_or_def)
  have z: "matchPath_calls initial_state = []"
    by (simp add: initial_state_def)
  have 1: "fst (Switch_render sample_pathToRegexp
     (Some \<lparr>ctx_location = \<lparr>pathname = ''/x/42'', search = [], hash = []\<rparr>,
            ctx_match = Some (computeRootMatch ''/x/42'')\<rparr>)
     None
     [Element \<lparr>props_path = One JUndefined, exact = False, strict = False, sensitive = False,
        props_from = One (JStr ''/old''), props_location = None, computedMatch = None,
        children = NoChildren, component = Some ''Redirect'', render = None\<rparr>,
      Element \<lparr>props_path = One (JStr ''/x''), exact = True, strict = False, sensitive = False,
        props_from = One JUndefined, props_location = None, computedMatch = None,
        children = NoChildren, component = Some ''List'', render = None\<rparr>,
      NotElement,
      Element \<lparr>props_path = One (JStr []), exact = False, strict = False, sensitive = False,
        props_from = One (JStr ''/x/:id''), props_location = None, computedMatch = None,
        children = NoChildren, component = Some ''Item'', render = None\<rparr>,
      Element \<lparr>props_path = One JUndefined, exact = False, strict = False, sensitive = False,
        props_from = One JUndefined, props_location = None, computedMatch = None,
        children = NoChildren, component = Some ''NotFound'', render = None\<rparr>]
     initial_state)
   = Inr (Some (Element \<lparr>props_path = One (JStr []), exact = False, strict = False,
        sensitive = False, props_from = One (JStr ''/x/:id''),
        props_location = Some \<lparr>pathname = ''/x/42'', search = [], hash = []\<rparr>,
        computedMatch = Some \<lparr>path = ''/x/:id'', url = ''/x/42'', isExact = True,
          params = Mapping.update ''id'' (Some ''42'') Mapping.empty\<rparr>,
        children = NoChildren, component = Some ''Item'', render = None\<rparr>))"
    using t [THEN conjunct2, THEN conjunct1] by simp
  have 2: "matchPath_calls (snd (Switch_render sample_pathToRegexp
     (Some \<lparr>ctx_location = \<lparr>pathname = ''/x/42'', search = [], hash = []\<rparr>,
            ctx_match = Some (computeRootMatch ''/x/42'')\<rparr>)
     None
     [Element \<lparr>props_path = One JUndefined, exact = False, strict = False, sensitive = False,
        props_from = One (JStr ''/old''), props_location = None, computedMatch = None,
        children = NoChildren, component = Some ''Redirect'', render = None\<rparr>,
      Element \<lparr>props_path = One (JStr ''/x''), exact = True, strict = False, sensitive = False,
        props_from = One JUndefined, props_location = None, computedMatch = None,
        children = NoChildren, component = Some ''List'', render = None\<rparr>,
      NotElement,
      Element \<lparr>props_path = One (JStr []), exact = False, strict = False, sensitive = False,
        props_from = One (JStr ''/x/:id''), props_location = None, computedMatch = None,
        children = NoChildren, component = Some ''Item'', render = None\<rparr>,
      Element \<lparr>props_path = One JUndefined, exact = False, strict = False, sensitive = False,
        props_from = One JUndefined, props_location = None, computedMatch = None,
        children = NoChildren, component = Some ''NotFound'', render = None\<rparr>]
     initial_state))
   = [(''/x/42'', One (JStr ''/old'')), (''/x/42'', One (JStr ''/x'')),
      (''/x/42'', One (JStr ''/x/:id''))]"
    using t [THEN conjunct2, THEN conjunct2, THEN conjunct1] unfolding calls z by simp
  have 3: "fst (Switch_render sample_pathToRegexp
     (Some \<lparr>ctx_location = \<lparr>pathname = ''/x/42'', search = [], hash = []\<rparr>,
            ctx_match = Some (computeRootMatch ''/x/42'')\<rparr>)
     None
     [Element \<lparr>props_path = One (JStr ''/x''), exact = True, strict = False, sensitive = False,
        props_from = One JUndefined, props_location = None, computedMatch = None,
        children = NoChildren, component = Some ''List'', render = None\<rparr>,
      Element \<lparr>props_path = One JUndefined, exact = False, strict = False, sensitive = False,
        props_from = One JUndefined, props_location = None, computedMatch = None,
        children = NoChildren, component = Some ''NotFound'', render = None\<rparr>,
      Element \<lparr>props_path = One (JStr []), exact = False, strict = False, sensitive = False,
        props_from = One (JStr ''/x/:id''), props_location = None, computedMatch = None,
        children = NoChildren, component = Some ''Item'', render = None\<rparr>]
     initial_state)
   = Inr (Some (Element \<lparr>props_path = One JUndefined, exact = False, strict = False,
        sensitive = False, props_from = One JUndefined,
        props_location = Some \<lparr>pathname = ''/x/42'', search = [], hash = []\<rparr>,
        computedMatch = Some \<lparr>path = ''/'', url = ''/'', isExact = False,
          params = Mapping.empty\<rparr>,
        children = NoChildren, component = Some ''NotFound'', render = None\<rparr>))"
    by code_simp
  have 4: "fst (Switch_render sample_pathToRegexp
     (Some \<lparr>ctx_location = \<lparr>pathname = ''/x/42'', search = [], hash = []\<rparr>,
            ctx_match = Some (computeRootMatch ''/x/42'')\<rparr>)
     None
     [Element \<lparr>props_path = One (JStr ''constructor''), exact = False, strict = False, sensitive = False,
        props_from = One JUndefined, props_location = None, computedMatch = None,
        children = NoChildren, component = Some ''Broken'', render = None\<rparr>,
      Element \<lparr>props_path = One (JStr []), exact = False, strict = False, sensitive = False,
        props_from = One (JStr ''/x/:id''), props_location = None, computedMatch = None,
        children = NoChildren, component = Some ''Item'', render = None\<rparr>]
     initial_state)
   = Inl (TypeError ''Cannot read property exec of undefined'')"
    by code_simp
  from 1 2 3 4 show ?thesis by (intro conjI)
qed

end
